theory Spec2Isabelle
  imports Complex_Main "HOL-Library.AList" "HOL-Library.Multiset"
begin

section \<open>JavaScript values used by the agent\<close>

text \<open>
  A JavaScript string is modelled by the bytes of its UTF-8 encoding, one \<^typ>\<open>char\<close> for
  each byte, so ASCII text is the text itself. A lone surrogate, which a cut through a
  surrogate pair leaves behind, stands as the three bytes the same scheme gives its
  code. Where the code counts or cuts UTF-16 code units (\<^verbatim>\<open>length\<close>, \<^verbatim>\<open>substring\<close>), the
  model counts them through the encoding. Numbers that the code only counts with are
  \<^typ>\<open>nat\<close> or \<^typ>\<open>int\<close>; measured quantities (seconds, pixels) are exact rationals, so
  IEEE rounding of a sum is not part of the model.
\<close>

datatype js_error =
  Error string
  | TypeError string
  | RangeError string

text \<open>\<^verbatim>\<open>String(error)\<close> and \<^verbatim>\<open>`${error}`\<close> of a thrown error object.\<close>

fun errorToString :: "js_error \<Rightarrow> string" where
  "errorToString (Error m) = ''Error: '' @ m"
| "errorToString (TypeError m) = ''TypeError: '' @ m"
| "errorToString (RangeError m) = ''RangeError: '' @ m"

text \<open>
  The UTF-16 code units a byte stands for: a byte that continues a character counts
  nothing, the first byte of a character of four bytes counts for the two units of a
  surrogate pair, every other byte for one unit.
\<close>

definition codeUnits :: "char \<Rightarrow> nat" where
  "codeUnits c =
     (if 128 \<le> (of_char c :: nat) \<and> (of_char c :: nat) < 192 then 0
      else if 240 \<le> (of_char c :: nat) then 2
      else 1)"

text \<open>\<^verbatim>\<open>String.prototype.length\<close>\<close>

definition jsLength :: "string \<Rightarrow> nat" where
  "jsLength s = sum_list (map codeUnits s)"

text \<open>
  The first unit of the surrogate pair of a character of four bytes, as three bytes:
  the character has the code \<open>cp\<close>, the unit is \<open>0xD800 + (cp - 0x10000) div 0x400\<close>.
\<close>

definition highSurrogate :: "string \<Rightarrow> string" where
  "highSurrogate bytes =
     (let b = (\<lambda>i. if i < length bytes then (of_char (bytes ! i) :: nat) else 0);
          cp = (b 0 mod 8) * 262144 + (b 1 mod 64) * 4096 + (b 2 mod 64) * 64 + b 3 mod 64;
          unit = 55296 + (cp - 65536) div 1024
      in [char_of (224 + unit div 4096), char_of (128 + (unit div 64) mod 64),
          char_of (128 + unit mod 64)])"

text \<open>\<^verbatim>\<open>text.substring(0, n)\<close>: the first \<open>n\<close> code units.\<close>

fun substring0 :: "nat \<Rightarrow> string \<Rightarrow> string" where
  "substring0 n [] = []"
| "substring0 n (c # cs) =
     (if codeUnits c = 0 then c # substring0 n cs
      else if codeUnits c \<le> n then c # substring0 (n - codeUnits c) cs
      else if n = 1 then highSurrogate (c # take 3 cs)
      else [])"

text \<open>
  The characters \<^verbatim>\<open>String.prototype.trim\<close> removes, each as its bytes: the white space
  and the line terminators of ECMAScript, which are U+0009 to U+000D, U+0020, U+00A0,
  U+1680, U+2000 to U+200A, U+2028, U+2029, U+202F, U+205F, U+3000 and U+FEFF.
\<close>

definition whiteSpace :: "string list" where
  "whiteSpace =
     [[CHR 0x09], [CHR 0x0A], [CHR 0x0B], [CHR 0x0C], [CHR 0x0D], [CHR 0x20],
      [CHR 0xC2, CHR 0xA0], [CHR 0xE1, CHR 0x9A, CHR 0x80],
      [CHR 0xE2, CHR 0x80, CHR 0x80], [CHR 0xE2, CHR 0x80, CHR 0x81],
      [CHR 0xE2, CHR 0x80, CHR 0x82], [CHR 0xE2, CHR 0x80, CHR 0x83],
      [CHR 0xE2, CHR 0x80, CHR 0x84], [CHR 0xE2, CHR 0x80, CHR 0x85],
      [CHR 0xE2, CHR 0x80, CHR 0x86], [CHR 0xE2, CHR 0x80, CHR 0x87],
      [CHR 0xE2, CHR 0x80, CHR 0x88], [CHR 0xE2, CHR 0x80, CHR 0x89],
      [CHR 0xE2, CHR 0x80, CHR 0x8A], [CHR 0xE2, CHR 0x80, CHR 0xA8],
      [CHR 0xE2, CHR 0x80, CHR 0xA9], [CHR 0xE2, CHR 0x80, CHR 0xAF],
      [CHR 0xE2, CHR 0x81, CHR 0x9F], [CHR 0xE3, CHR 0x80, CHR 0x80],
      [CHR 0xEF, CHR 0xBB, CHR 0xBF]]"

definition isWhiteSpace :: "string \<Rightarrow> bool" where
  "isWhiteSpace bytes = (bytes \<in> set whiteSpace)"

text \<open>\<^verbatim>\<open>String.prototype.trimStart\<close>\<close>

fun trimStart :: "string \<Rightarrow> string" where
  "trimStart (a # b # c # rest) =
     (if isWhiteSpace [a] then trimStart (b # c # rest)
      else if isWhiteSpace [a, b] then trimStart (c # rest)
      else if isWhiteSpace [a, b, c] then trimStart rest
      else a # b # c # rest)"
| "trimStart [a, b] =
     (if isWhiteSpace [a] then trimStart [b]
      else if isWhiteSpace [a, b] then []
      else [a, b])"
| "trimStart [a] = (if isWhiteSpace [a] then [] else [a])"
| "trimStart [] = []"

text \<open>
  \<^verbatim>\<open>String.prototype.trimEnd\<close>, through the string read from its end: \<open>c\<close> is the last
  byte, \<open>b\<close> the one before it.
\<close>

fun trimEndReversed :: "string \<Rightarrow> string" where
  "trimEndReversed (c # b # a # rest) =
     (if isWhiteSpace [c] then trimEndReversed (b # a # rest)
      else if isWhiteSpace [b, c] then trimEndReversed (a # rest)
      else if isWhiteSpace [a, b, c] then trimEndReversed rest
      else c # b # a # rest)"
| "trimEndReversed [c, b] =
     (if isWhiteSpace [c] then trimEndReversed [b]
      else if isWhiteSpace [b, c] then []
      else [c, b])"
| "trimEndReversed [c] = (if isWhiteSpace [c] then [] else [c])"
| "trimEndReversed [] = []"

definition trimEnd :: "string \<Rightarrow> string" where
  "trimEnd s = rev (trimEndReversed (rev s))"

text \<open>\<^verbatim>\<open>String.prototype.trim\<close>\<close>

definition trim :: "string \<Rightarrow> string" where
  "trim s = trimEnd (trimStart s)"

definition lowerChar :: "char \<Rightarrow> char" where
  "lowerChar c =
     (if 65 \<le> (of_char c :: nat) \<and> (of_char c :: nat) \<le> 90
      then char_of ((of_char c :: nat) + 32) else c)"

text \<open>
  \<^verbatim>\<open>String.prototype.toLowerCase\<close>, which is this map on every string in which the only
  characters that have a lower-case form of their own are the capital letters of ASCII.
\<close>

definition toLowerCase :: "string \<Rightarrow> string" where
  "toLowerCase s = map lowerChar s"

definition digitChar :: "nat \<Rightarrow> char" where
  "digitChar d = ''0123456789'' ! d"

text \<open>\<^verbatim>\<open>String(n)\<close>, \<^verbatim>\<open>n.toString()\<close> and \<^verbatim>\<open>`${n}`\<close> of a non-negative integer.\<close>

fun showNat :: "nat \<Rightarrow> string" where
  "showNat n = (if n < 10 then [digitChar n] else showNat (n div 10) @ [digitChar (n mod 10)])"

declare showNat.simps [simp del]

definition showInt :: "int \<Rightarrow> string" where
  "showInt i = (if i < 0 then ''-'' @ showNat (nat (- i)) else showNat (nat i))"

text \<open>\<^verbatim>\<open>Array.prototype.join\<close>.\<close>

fun joinWith :: "string \<Rightarrow> string list \<Rightarrow> string" where
  "joinWith sep [] = []"
| "joinWith sep [x] = x"
| "joinWith sep (x # y # ys) = x @ sep @ joinWith sep (y # ys)"

text \<open>\<^verbatim>\<open>String.prototype.split\<close> at one separator character.\<close>

fun splitOn :: "char \<Rightarrow> string \<Rightarrow> string list" where
  "splitOn sep [] = [[]]"
| "splitOn sep (c # cs) =
     (if c = sep then [] # splitOn sep cs
      else (case splitOn sep cs of [] \<Rightarrow> [[c]] | l # ls \<Rightarrow> (c # l) # ls))"

text \<open>\<^verbatim>\<open>'\t'.repeat(depth)\<close>.\<close>

definition tabs :: "nat \<Rightarrow> string" where
  "tabs depth = replicate depth (CHR 0x09)"

text \<open>
  The names every plain object inherits from \<^verbatim>\<open>Object.prototype\<close>: the operator
  \<^verbatim>\<open>in\<close> finds them in an empty object literal, and reading one of them yields a
  function or object, not \<^verbatim>\<open>undefined\<close>.
\<close>

definition objectPrototypeKeys :: "string list" where
  "objectPrototypeKeys =
     [''constructor'', ''__defineGetter__'', ''__defineSetter__'', ''hasOwnProperty'',
      ''__lookupGetter__'', ''__lookupSetter__'', ''isPrototypeOf'', ''propertyIsEnumerable'',
      ''toString'', ''valueOf'', ''__proto__'', ''toLocaleString'']"

text \<open>
  Property assignment \<^verbatim>\<open>obj[key] = value\<close> on a plain object with string values: a new
  key goes last, an old key keeps its place, and \<^verbatim>\<open>__proto__\<close> never becomes a
  property. (Keys that are array indices would be listed first; attribute names are
  not.)
\<close>

definition setProperty :: "string \<Rightarrow> string \<Rightarrow> (string \<times> string) list \<Rightarrow> (string \<times> string) list" where
  "setProperty key v obj = (if key = ''__proto__'' then obj else AList.update key v obj)"

text \<open>The glyphs of the action messages, as UTF-8 bytes.\<close>

definition checkMark :: string where
  "checkMark = [CHR 0xE2, CHR 0x9C, CHR 0x85]"

definition crossMark :: string where
  "crossMark = [CHR 0xE2, CHR 0x9D, CHR 0x8C]"

definition warningSign :: string where
  "warningSign = [CHR 0xE2, CHR 0x9A, CHR 0xA0, CHR 0xEF, CHR 0xB8, CHR 0x8F]"

text \<open>
  The check mark as tools/index.ts holds it: the three bytes of U+2705 read as three
  characters of Windows-1252 (U+00E2, U+0153, U+2026) and encoded again.
\<close>

definition garbledCheckMark :: string where
  "garbledCheckMark = [CHR 0xC3, CHR 0xA2, CHR 0xC5, CHR 0x93, CHR 0xE2, CHR 0x80, CHR 0xA6]"

definition skipSign :: string where
  "skipSign = [CHR 0xE2, CHR 0x8F, CHR 0xAD, CHR 0xEF, CHR 0xB8, CHR 0x8F]"

section \<open>The live page\<close>

text \<open>
  What the in-page script of \<^verbatim>\<open>getFlatTree\<close> reads from one DOM element. Layout facts
  the browser computes are fields of the element: the computed style, the offset box,
  the bounding client rectangle, the scroll metrics, and \<open>centreHit\<close>. The last says
  whether the box that hit testing finds at the centre of the rectangle belongs to the
  element or to one of its descendants below the document element, that is, whether
  no other element covers the centre. \<^verbatim>\<open>document.elementFromPoint\<close> returns what hit
  testing finds only for a point of the viewport.
\<close>

record computedStyle =
  visibility :: string
  display :: string
  cursor :: string
  overflowX :: string
  overflowY :: string

text \<open>
  A \<^verbatim>\<open>DOMRect\<close> has an origin and a size; its four edges are computed from them.
\<close>

record domRect =
  rect_x :: rat
  rect_y :: rat
  rect_width :: rat
  rect_height :: rat

definition rect_left :: "domRect \<Rightarrow> rat" where
  "rect_left rect = min (rect_x rect) (rect_x rect + rect_width rect)"

definition rect_right :: "domRect \<Rightarrow> rat" where
  "rect_right rect = max (rect_x rect) (rect_x rect + rect_width rect)"

definition rect_top :: "domRect \<Rightarrow> rat" where
  "rect_top rect = min (rect_y rect) (rect_y rect + rect_height rect)"

definition rect_bottom :: "domRect \<Rightarrow> rat" where
  "rect_bottom rect = max (rect_y rect) (rect_y rect + rect_height rect)"

record dom_element =
  el_tagName :: string
  el_attributes :: "(string \<times> string) list"
  offsetWidth :: int
  offsetHeight :: int
  style :: computedStyle
  boundingClientRect :: domRect
  centreHit :: bool
  disabled :: bool
  readOnly :: bool
  isContentEditable :: bool
  onclick :: bool
  inputType :: string
  checked :: bool
  scrollWidth :: int
  clientWidth :: int
  scrollHeight :: int
  clientHeight :: int
  scrollTop :: int
  scrollLeft :: int

datatype dom_node =
  TextNode string
  | ElementNode dom_element "dom_node list"
  | OtherNode

text \<open>
  The page: its body, \<^verbatim>\<open>window.innerWidth\<close> and \<^verbatim>\<open>window.innerHeight\<close>, which measure
  the viewport with its scroll bars, and the sizes of the scroll bars the viewport
  shows (0 for none): the width of the vertical one and the height of the horizontal
  one.
\<close>

record page =
  body :: dom_node
  innerWidth :: int
  innerHeight :: int
  scrollbarWidth :: nat
  scrollbarHeight :: nat

section \<open>The flat snapshot (dom/type.ts)\<close>

record scroll_data =
  sd_top :: int
  sd_right :: int
  sd_bottom :: int
  sd_left :: int

record extra_info =
  scrollable :: bool
  scrollData :: "scroll_data option"

datatype locator = Locator string

text \<open>
  \<^verbatim>\<open>ElementDomNode\<close> and \<^verbatim>\<open>InteractiveElementDomNode\<close> in one record: an optional field
  of the interface is an \<^typ>\<open>'a option\<close>, absent attributes and children are empty.
\<close>

record element_dom_node =
  tagName :: string
  attributes :: "(string \<times> string) list"
  children :: "string list"
  isVisible :: "bool option"
  isTopElement :: "bool option"
  isInViewport :: "bool option"
  isNew :: "bool option"
  isInteractive :: "bool option"
  highlightIndex :: "nat option"
  extra :: "extra_info option"
  locator :: "locator option"

datatype dom_node_flat =
  TextDomNode string bool
  | ElementDomNode element_dom_node

record FlatDomTree =
  rootId :: string
  nodeMap :: "(string \<times> dom_node_flat) list"

record DomTreeConfig =
  viewportExpansion :: "int option"
  include_attributes :: "string list option"

definition MAX_STEPS :: nat where
  "MAX_STEPS = 50"

definition VIEWPORT_EXPANSION :: int where
  "VIEWPORT_EXPANSION = - 1"

section \<open>DOM extraction (dom/domTree.ts, getFlatTree)\<close>

definition markerAttribute :: string where
  "markerAttribute = ''data-pw-agent-index''"

definition interactiveElements :: "string list" where
  "interactiveElements =
     [''a'', ''button'', ''input'', ''select'', ''textarea'', ''details'', ''summary'', ''label'']"

definition interactiveCursors :: "string list" where
  "interactiveCursors = [''pointer'', ''text'', ''grab'', ''grabbing'']"

definition interactiveRoles :: "string list" where
  "interactiveRoles =
     [''button'', ''link'', ''menuitem'', ''checkbox'', ''radio'', ''tab'', ''switch'',
      ''textbox'', ''combobox'']"

definition skipTags :: "string list" where
  "skipTags = [''script'', ''style'', ''link'', ''meta'', ''noscript'', ''template'']"

definition isInteractiveElement :: "dom_element \<Rightarrow> bool" where
  "isInteractiveElement element =
     (if toLowerCase (el_tagName element) \<in> set interactiveElements
      then \<not> (disabled element \<or> readOnly element)
      else if cursor (style element) \<noteq> [] \<and> cursor (style element) \<in> set interactiveCursors
      then True
      else if isContentEditable element
              \<or> map_of (el_attributes element) ''contenteditable'' = Some ''true''
      then True
      else if (case map_of (el_attributes element) ''role'' of
                 None \<Rightarrow> False
               | Some role \<Rightarrow> role \<noteq> [] \<and> role \<in> set interactiveRoles)
      then True
      else if map_of (el_attributes element) ''onclick'' \<noteq> None \<or> onclick element
      then True
      else False)"

definition isElementVisible :: "dom_element \<Rightarrow> bool" where
  "isElementVisible element =
     (offsetWidth element > 0 \<and> offsetHeight element > 0
      \<and> visibility (style element) \<noteq> ''hidden''
      \<and> display (style element) \<noteq> ''none'')"

definition isInViewport_el :: "page \<Rightarrow> dom_element \<Rightarrow> int \<Rightarrow> bool" where
  "isInViewport_el pg element expansion =
     (if expansion = - 1 then True
      else (let rect = boundingClientRect element;
                viewportHeight = innerHeight pg;
                viewportWidth = innerWidth pg
            in \<not> (rect_bottom rect < of_int (- expansion)
                  \<or> rect_top rect > of_int (viewportHeight + expansion)
                  \<or> rect_right rect < of_int (- expansion)
                  \<or> rect_left rect > of_int (viewportWidth + expansion))))"

text \<open>
  \<^verbatim>\<open>document.elementFromPoint(x, y)\<close> returns \<^verbatim>\<open>null\<close> when \<open>x\<close> or \<open>y\<close> is negative, when
  \<open>x\<close> is greater than the width of the viewport without its scroll bar, and when \<open>y\<close>
  is greater than the height of the viewport without its scroll bar. At every other
  point it returns the element that hit testing finds there.
\<close>

definition elementFromPoint_null :: "page \<Rightarrow> rat \<Rightarrow> rat \<Rightarrow> bool" where
  "elementFromPoint_null pg x y =
     (x < 0 \<or> y < 0
      \<or> x > of_int (innerWidth pg - int (scrollbarWidth pg))
      \<or> y > of_int (innerHeight pg - int (scrollbarHeight pg)))"

definition isTopElement_el :: "page \<Rightarrow> dom_element \<Rightarrow> int \<Rightarrow> bool" where
  "isTopElement_el pg element expansion =
     (if expansion = - 1 then True
      else (let rect = boundingClientRect element
            in if rect_width rect = 0 \<or> rect_height rect = 0 then False
               else (let centerX = rect_left rect + rect_width rect / 2;
                         centerY = rect_top rect + rect_height rect / 2
                     in if elementFromPoint_null pg centerX centerY then False
                        else centreHit element)))"

definition getElementAttributes :: "dom_element \<Rightarrow> (string \<times> string) list" where
  "getElementAttributes element =
     (let attrs = fold (\<lambda>(name, v) acc. setProperty name v acc) (el_attributes element) []
      in if toLowerCase (el_tagName element) = ''input''
            \<and> (inputType element = ''checkbox'' \<or> inputType element = ''radio'')
         then AList.update ''checked'' (if checked element then ''true'' else ''false'') attrs
         else attrs)"

definition isScrollableElement :: "dom_element \<Rightarrow> scroll_data option" where
  "isScrollableElement element =
     (let scrollableX = (overflowX (style element) = ''auto'' \<or> overflowX (style element) = ''scroll'');
          scrollableY = (overflowY (style element) = ''auto'' \<or> overflowY (style element) = ''scroll'')
      in if \<not> scrollableX \<and> \<not> scrollableY then None
         else if scrollWidth element - clientWidth element < 4
                 \<and> scrollHeight element - clientHeight element < 4 then None
         else Some \<lparr> sd_top = scrollTop element,
                     sd_right = scrollWidth element - clientWidth element - scrollLeft element,
                     sd_bottom = scrollHeight element - clientHeight element - scrollTop element,
                     sd_left = scrollLeft element \<rparr>)"

text \<open>The counters and the node table the in-page walk shares.\<close>

record walk_state =
  ID_current :: nat
  DOM_HASH_MAP :: "(string \<times> dom_node_flat) list"
  highlightCounter :: nat

text \<open>
  The part of \<^verbatim>\<open>buildDomTree\<close> that looks at the element itself (the node literal, the
  visibility block and the scroll block): it returns the node data still without
  children, the element as stamped, and the next highlight index.
\<close>

definition describeElement ::
  "page \<Rightarrow> int \<Rightarrow> dom_element \<Rightarrow> nat \<Rightarrow> element_dom_node \<times> dom_element \<times> nat" where
  "describeElement pg vx element hi =
     (let nodeData = \<lparr> tagName = toLowerCase (el_tagName element), attributes = [], children = [],
                        isVisible = None, isTopElement = None, isInViewport = None, isNew = None,
                        isInteractive = None, highlightIndex = None, extra = None, locator = None \<rparr>;
          (nodeData, element, hi) =
            (if isElementVisible element
             then (let nodeData = nodeData \<lparr> isVisible := Some True,
                                              isTopElement := Some (isTopElement_el pg element vx),
                                              isInViewport := Some (isInViewport_el pg element vx) \<rparr>
                   in if isTopElement_el pg element vx \<and> isInteractiveElement element
                      then (let nodeData = nodeData \<lparr> isInteractive := Some True \<rparr>
                            in if isInViewport_el pg element vx \<or> vx = - 1
                               then (nodeData \<lparr> highlightIndex := Some hi,
                                                attributes := getElementAttributes element \<rparr>,
                                     element \<lparr> el_attributes :=
                                       AList.update markerAttribute (showNat hi) (el_attributes element) \<rparr>,
                                     hi + 1)
                               else (nodeData, element, hi))
                      else (nodeData, element, hi))
             else (nodeData, element, hi))
      in (case isScrollableElement element of
            None \<Rightarrow> (nodeData, element, hi)
          | Some sd \<Rightarrow>
              (nodeData \<lparr> extra := Some \<lparr> scrollable = True, scrollData = Some sd \<rparr> \<rparr>, element, hi)))"

text \<open>
  \<^verbatim>\<open>buildDomTree\<close> and its loop over the child nodes. Each returns the live nodes as the
  walk leaves them (the marker attribute is written on the real page), next to the
  walk's state.
\<close>

fun buildDomTree ::
    "page \<Rightarrow> int \<Rightarrow> dom_node \<Rightarrow> walk_state \<Rightarrow> string option \<times> dom_node \<times> walk_state"
  and processChildNodes ::
    "page \<Rightarrow> int \<Rightarrow> dom_node list \<Rightarrow> walk_state \<Rightarrow> string list \<times> dom_node list \<times> walk_state"
where
  "buildDomTree pg vx (TextNode t) s = (None, TextNode t, s)"
| "buildDomTree pg vx OtherNode s = (None, OtherNode, s)"
| "buildDomTree pg vx (ElementNode element kids) s =
     (if toLowerCase (el_tagName element) \<in> set skipTags then (None, ElementNode element kids, s)
      else (case describeElement pg vx element (highlightCounter s) of
              (nodeData, element', hi) \<Rightarrow>
        (case processChildNodes pg vx kids (s \<lparr> highlightCounter := hi \<rparr>) of
              (childIds, kids', s') \<Rightarrow>
          (let ident = showNat (ID_current s')
           in (Some ident, ElementNode element' kids',
               s' \<lparr> ID_current := ID_current s' + 1,
                    DOM_HASH_MAP :=
                      AList.update ident (ElementDomNode (nodeData \<lparr> children := childIds \<rparr>))
                        (DOM_HASH_MAP s') \<rparr>)))))"
| "processChildNodes pg vx [] s = ([], [], s)"
| "processChildNodes pg vx (TextNode t # rest) s =
     (let textContent = trim t
      in if textContent \<noteq> []
         then (let textId = showNat (ID_current s);
                   s1 = s \<lparr> ID_current := ID_current s + 1,
                            DOM_HASH_MAP :=
                              AList.update textId (TextDomNode textContent True) (DOM_HASH_MAP s) \<rparr>
               in (case processChildNodes pg vx rest s1 of
                     (ids, rest', s2) \<Rightarrow> (textId # ids, TextNode t # rest', s2)))
         else (case processChildNodes pg vx rest s of
                 (ids, rest', s2) \<Rightarrow> (ids, TextNode t # rest', s2)))"
| "processChildNodes pg vx (OtherNode # rest) s =
     (case processChildNodes pg vx rest s of
        (ids, rest', s2) \<Rightarrow> (ids, OtherNode # rest', s2))"
| "processChildNodes pg vx (ElementNode element kids # rest) s =
     (case buildDomTree pg vx (ElementNode element kids) s of
        (childId, child', s1) \<Rightarrow>
          (case processChildNodes pg vx rest s1 of
             (ids, rest', s2) \<Rightarrow>
               ((case childId of None \<Rightarrow> ids | Some i \<Rightarrow> i # ids), child' # rest', s2)))"

text \<open>The clean-up of the marks of an earlier pass.\<close>

fun clearMarks :: "dom_node \<Rightarrow> dom_node" where
  "clearMarks (TextNode t) = TextNode t"
| "clearMarks OtherNode = OtherNode"
| "clearMarks (ElementNode element kids) =
     ElementNode (element \<lparr> el_attributes := AList.delete markerAttribute (el_attributes element) \<rparr>)
       (map clearMarks kids)"

definition markerSelector :: "nat \<Rightarrow> string" where
  "markerSelector i = ''[data-pw-agent-index='' @ [CHR 0x22] @ showNat i @ [CHR 0x22] @ '']''"

text \<open>The loop of \<^verbatim>\<open>getFlatTree\<close> that gives every indexed interactive node its locator.\<close>

definition attachLocator :: "dom_node_flat \<Rightarrow> dom_node_flat" where
  "attachLocator nodeData =
     (case nodeData of
        TextDomNode t v \<Rightarrow> nodeData
      | ElementDomNode d \<Rightarrow>
          (case highlightIndex d of
             None \<Rightarrow> nodeData
           | Some i \<Rightarrow>
               if isInteractive d = Some True
               then ElementDomNode (d \<lparr> isInteractive := Some True, isNew := None,
                                       locator := Some (Locator (markerSelector i)) \<rparr>)
               else nodeData))"

definition getFlatTree :: "page \<Rightarrow> DomTreeConfig \<Rightarrow> FlatDomTree \<times> page" where
  "getFlatTree pg config =
     (let vx = (case viewportExpansion config of None \<Rightarrow> VIEWPORT_EXPANSION | Some v \<Rightarrow> v);
          cleaned = clearMarks (body pg);
          (root, body', s) =
             buildDomTree pg vx cleaned \<lparr> ID_current = 0, DOM_HASH_MAP = [], highlightCounter = 0 \<rparr>;
          markedElements = \<lparr> rootId = (case root of None \<Rightarrow> ''0'' | Some r \<Rightarrow> r),
                             nodeMap = DOM_HASH_MAP s \<rparr>
      in (markedElements \<lparr> nodeMap := map (\<lambda>(nodeId, nodeData). (nodeId, attachLocator nodeData))
                                         (nodeMap markedElements) \<rparr>,
          pg \<lparr> body := body' \<rparr>))"

text \<open>dom/getSelectorMap.ts\<close>

definition getSelectorMap :: "FlatDomTree \<Rightarrow> (nat \<times> element_dom_node) list" where
  "getSelectorMap flatTree =
     fold (\<lambda>(key, node) selectorMap.
             (case node of
                TextDomNode t v \<Rightarrow> selectorMap
              | ElementDomNode d \<Rightarrow>
                  (case highlightIndex d of
                     None \<Rightarrow> selectorMap
                   | Some i \<Rightarrow> if isInteractive d = Some True
                               then AList.update i d selectorMap else selectorMap)))
          (nodeMap flatTree) []"

text \<open>
  What a Playwright locator built from a marker selector resolves to: the elements of
  the document, in document order, whose marker attribute has the value the selector
  names.
\<close>

fun elementsOf :: "dom_node \<Rightarrow> dom_element list" where
  "elementsOf (TextNode t) = []"
| "elementsOf OtherNode = []"
| "elementsOf (ElementNode element kids) = element # concat (map elementsOf kids)"

definition matchesLocator :: "locator \<Rightarrow> dom_element \<Rightarrow> bool" where
  "matchesLocator l element =
     (case l of Locator selector \<Rightarrow>
        (case map_of (el_attributes element) markerAttribute of
           None \<Rightarrow> False
         | Some v \<Rightarrow> selector = ''[data-pw-agent-index='' @ [CHR 0x22] @ v @ [CHR 0x22] @ '']''))"

definition resolveLocator :: "page \<Rightarrow> locator \<Rightarrow> dom_element list" where
  "resolveLocator pg l = filter (matchesLocator l) (elementsOf (body pg))"

section \<open>Serialization (dom/flatTreeToString.ts)\<close>

definition DEFAULT_INCLUDE_ATTRIBUTES :: "string list" where
  "DEFAULT_INCLUDE_ATTRIBUTES =
     [''title'', ''type'', ''checked'', ''name'', ''role'', ''value'', ''placeholder'',
      ''data-date-format'', ''alt'', ''aria-label'', ''aria-expanded'', ''data-state'',
      ''aria-checked'', ''id'', ''for'', ''target'', ''aria-haspopup'', ''aria-controls'',
      ''aria-owns'']"

definition capTextLength :: "string \<Rightarrow> nat \<Rightarrow> string" where
  "capTextLength text maxLength =
     (if jsLength text > maxLength then substring0 maxLength text @ ''...'' else text)"

text \<open>
  \<^verbatim>\<open>TreeNode\<close>: the parent pointer of a node is the head of the list of ancestors that
  the functions below pass down, nearest first.
\<close>

record tree_element =
  tn_tagName :: "string option"
  tn_attributes :: "(string \<times> string) list"
  tn_isVisible :: bool
  tn_isInteractive :: bool
  tn_isTopElement :: bool
  tn_isNew :: bool
  tn_highlightIndex :: "nat option"
  tn_extra :: "extra_info option"

datatype tree_node =
  TreeText string bool
  | TreeElement tree_element "tree_node list"

text \<open>
  \<^verbatim>\<open>buildTreeNode\<close>. The first argument bounds the depth of the recursion: a node map
  whose child references run in a cycle exhausts every bound, as it exhausts the call
  stack.
\<close>

fun buildTreeNode ::
    "nat \<Rightarrow> (string \<times> dom_node_flat) list \<Rightarrow> string \<Rightarrow> js_error + tree_node option"
  and buildTreeNodes ::
    "nat \<Rightarrow> (string \<times> dom_node_flat) list \<Rightarrow> string list \<Rightarrow> js_error + tree_node list"
where
  "buildTreeNode 0 m nodeId = Inl (RangeError ''Maximum call stack size exceeded'')"
| "buildTreeNode (Suc n) m nodeId =
     (case map_of m nodeId of
        None \<Rightarrow> Inr None
      | Some (TextDomNode t v) \<Rightarrow> Inr (Some (TreeText t v))
      | Some (ElementDomNode elementNode) \<Rightarrow>
          (case buildTreeNodes n m (children elementNode) of
             Inl e \<Rightarrow> Inl e
           | Inr kids \<Rightarrow>
               Inr (Some (TreeElement
                 \<lparr> tn_tagName = Some (tagName elementNode),
                   tn_attributes = attributes elementNode,
                   tn_isVisible = (case isVisible elementNode of None \<Rightarrow> False | Some b \<Rightarrow> b),
                   tn_isInteractive = (case isInteractive elementNode of None \<Rightarrow> False | Some b \<Rightarrow> b),
                   tn_isTopElement = (case isTopElement elementNode of None \<Rightarrow> False | Some b \<Rightarrow> b),
                   tn_isNew = (case isNew elementNode of None \<Rightarrow> False | Some b \<Rightarrow> b),
                   tn_highlightIndex = highlightIndex elementNode,
                   tn_extra = extra elementNode \<rparr> kids))))"
| "buildTreeNodes n m [] = Inr []"
| "buildTreeNodes n m (childId # rest) =
     (case buildTreeNode n m childId of
        Inl e \<Rightarrow> Inl e
      | Inr child \<Rightarrow>
          (case buildTreeNodes n m rest of
             Inl e \<Rightarrow> Inl e
           | Inr kids \<Rightarrow> Inr ((case child of None \<Rightarrow> [] | Some c \<Rightarrow> [c]) @ kids)))"

definition hasParentWithHighlightIndex :: "tree_element list \<Rightarrow> bool" where
  "hasParentWithHighlightIndex ancestors = list_ex (\<lambda>p. tn_highlightIndex p \<noteq> None) ancestors"

text \<open>
  \<^verbatim>\<open>collectText\<close> below the node the collection started from (the start node itself is
  never skipped; \<^verbatim>\<open>maxDepth\<close> is always \<open>-1\<close>).
\<close>

fun collectText :: "tree_node \<Rightarrow> string list" where
  "collectText (TreeText t v) = (if t \<noteq> [] then [t] else [])"
| "collectText (TreeElement e kids) =
     (if tn_highlightIndex e \<noteq> None then [] else concat (map collectText kids))"

definition textParts :: "tree_node \<Rightarrow> string list" where
  "textParts node =
     (case node of
        TreeText t v \<Rightarrow> (if t \<noteq> [] then [t] else [])
      | TreeElement e kids \<Rightarrow> concat (map collectText kids))"

definition getAllTextTillNextClickableElement :: "tree_node \<Rightarrow> string" where
  "getAllTextTillNextClickableElement node = trim (joinWith [CHR 0x0A] (textParts node))"

text \<open>
  The first loop over \<^verbatim>\<open>includeAttrs\<close>. Reading a name that the node lacks but
  \<^verbatim>\<open>Object.prototype\<close> has yields a function or object, and the call of \<^verbatim>\<open>trim\<close> on it
  throws.
\<close>

fun filterAttributes ::
  "string list \<Rightarrow> (string \<times> string) list \<Rightarrow> (string \<times> string) list
     \<Rightarrow> js_error + (string \<times> string) list" where
  "filterAttributes [] nodeAttributes attributesToInclude = Inr attributesToInclude"
| "filterAttributes (key # keys) nodeAttributes attributesToInclude =
     (case map_of nodeAttributes key of
        Some v \<Rightarrow>
          (if v \<noteq> [] \<and> trim v \<noteq> []
           then filterAttributes keys nodeAttributes (setProperty key (trim v) attributesToInclude)
           else filterAttributes keys nodeAttributes attributesToInclude)
      | None \<Rightarrow>
          (if key \<in> set objectPrototypeKeys then Inl (TypeError ''value.trim is not a function'')
           else filterAttributes keys nodeAttributes attributesToInclude))"

text \<open>\<^verbatim>\<open>key in obj\<close> for a plain object.\<close>

definition hasProperty :: "string \<Rightarrow> (string \<times> 'a) list \<Rightarrow> bool" where
  "hasProperty key obj = (map_of obj key \<noteq> None \<or> key \<in> set objectPrototypeKeys)"

text \<open>
  The loop over \<^verbatim>\<open>orderedKeys\<close>: \<open>keysToRemove\<close> and the keys of \<open>seenValues\<close> as lists.
  An inherited property is no string and has no length above 5.
\<close>

fun duplicateKeys ::
  "string list \<Rightarrow> (string \<times> string) list \<Rightarrow> string list \<Rightarrow> string list \<Rightarrow> string list" where
  "duplicateKeys [] attributesToInclude keysToRemove seenValues = keysToRemove"
| "duplicateKeys (key # keys) attributesToInclude keysToRemove seenValues =
     (case map_of attributesToInclude key of
        None \<Rightarrow> duplicateKeys keys attributesToInclude keysToRemove seenValues
      | Some v \<Rightarrow>
          (if jsLength v > 5
           then (if hasProperty v (map (\<lambda>s. (s, ())) seenValues)
                 then duplicateKeys keys attributesToInclude (keysToRemove @ [key]) seenValues
                 else duplicateKeys keys attributesToInclude keysToRemove (seenValues @ [v]))
           else duplicateKeys keys attributesToInclude keysToRemove seenValues))"

definition removeDuplicateValues ::
  "string list \<Rightarrow> (string \<times> string) list \<Rightarrow> (string \<times> string) list" where
  "removeDuplicateValues includeAttrs attributesToInclude =
     (let orderedKeys = filter (\<lambda>key. hasProperty key attributesToInclude) includeAttrs
      in if length orderedKeys > 1
         then fold AList.delete (duplicateKeys orderedKeys attributesToInclude [] []) attributesToInclude
         else attributesToInclude)"

definition removeRole :: "string option \<Rightarrow> (string \<times> string) list \<Rightarrow> (string \<times> string) list" where
  "removeRole tag attributesToInclude =
     (if map_of attributesToInclude ''role'' = tag then AList.delete ''role'' attributesToInclude
      else attributesToInclude)"

definition removeTextDuplicates :: "string \<Rightarrow> (string \<times> string) list \<Rightarrow> (string \<times> string) list" where
  "removeTextDuplicates text attributesToInclude =
     fold (\<lambda>attr acc.
             (case map_of acc attr of
                None \<Rightarrow> acc
              | Some v \<Rightarrow> if v \<noteq> [] \<and> trim (toLowerCase v) = trim (toLowerCase text)
                          then AList.delete attr acc else acc))
          [''aria-label'', ''placeholder'', ''title''] attributesToInclude"

definition retainedAttributes ::
  "string list \<Rightarrow> tree_element \<Rightarrow> string \<Rightarrow> js_error + (string \<times> string) list" where
  "retainedAttributes includeAttrs e text =
     (if length includeAttrs > 0
      then (case filterAttributes includeAttrs (tn_attributes e) [] of
              Inl err \<Rightarrow> Inl err
            | Inr attributesToInclude \<Rightarrow>
                Inr (removeTextDuplicates text
                       (removeRole (tn_tagName e)
                          (removeDuplicateValues includeAttrs attributesToInclude))))
      else Inr [])"

definition attributesHtml :: "(string \<times> string) list \<Rightarrow> string" where
  "attributesHtml attributesToInclude =
     joinWith '' '' (map (\<lambda>(key, v). key @ ''='' @ capTextLength v 20) attributesToInclude)"

definition scrollDataText :: "scroll_data option \<Rightarrow> string" where
  "scrollDataText sd =
     (case sd of
        None \<Rightarrow> []
      | Some d \<Rightarrow>
          (if sd_left d \<noteq> 0 then ''left='' @ showInt (sd_left d) @ '', '' else [])
          @ (if sd_top d \<noteq> 0 then ''top='' @ showInt (sd_top d) @ '', '' else [])
          @ (if sd_right d \<noteq> 0 then ''right='' @ showInt (sd_right d) @ '', '' else [])
          @ (if sd_bottom d \<noteq> 0 then ''bottom='' @ showInt (sd_bottom d) else []))"

text \<open>The line of an element that has a highlight index \<open>i\<close>.\<close>

definition elementLine ::
  "string list \<Rightarrow> tree_element \<Rightarrow> tree_node list \<Rightarrow> nat \<Rightarrow> nat \<Rightarrow> js_error + string" where
  "elementLine includeAttrs e kids i depth =
     (let text = getAllTextTillNextClickableElement (TreeElement e kids)
      in (case retainedAttributes includeAttrs e text of
            Inl err \<Rightarrow> Inl err
          | Inr attributesToInclude \<Rightarrow>
              (let attributesHtmlStr = attributesHtml attributesToInclude;
                   highlightIndicator = (if tn_isNew e then ''*['' else ''['') @ showNat i @ '']'';
                   line = tabs depth @ highlightIndicator @ ''<''
                          @ (case tn_tagName e of None \<Rightarrow> [] | Some t \<Rightarrow> t);
                   line = (if attributesHtmlStr \<noteq> [] then line @ '' '' @ attributesHtmlStr else line);
                   line = (case tn_extra e of
                             None \<Rightarrow> line
                           | Some x \<Rightarrow>
                               if scrollable x
                               then line @ '' data-scrollable='' @ [CHR 0x22]
                                    @ scrollDataText (scrollData x) @ [CHR 0x22]
                               else line);
                   line = (if text \<noteq> []
                           then (if attributesHtmlStr = [] then line @ '' '' else line)
                                @ ''>'' @ trim text
                           else if attributesHtmlStr = [] then line @ '' '' else line)
               in Inr (line @ '' />''))))"

text \<open>
  An entry of the \<open>result\<close> array, tagged with the branch of \<^verbatim>\<open>processNode\<close> that pushed
  it; \<open>lineText\<close> is the string the array holds.
\<close>

datatype out_line =
  ElementLine string
  | TextLine string

fun lineText :: "out_line \<Rightarrow> string" where
  "lineText (ElementLine l) = l"
| "lineText (TextLine l) = l"

fun processNode ::
    "string list \<Rightarrow> tree_element list \<Rightarrow> tree_node \<Rightarrow> nat \<Rightarrow> js_error + out_line list"
  and processNodes ::
    "string list \<Rightarrow> tree_element list \<Rightarrow> tree_node list \<Rightarrow> nat \<Rightarrow> js_error + out_line list"
where
  "processNode includeAttrs ancestors (TreeElement e kids) depth =
     (case tn_highlightIndex e of
        Some i \<Rightarrow>
          (case elementLine includeAttrs e kids i depth of
             Inl err \<Rightarrow> Inl err
           | Inr line \<Rightarrow>
               (case processNodes includeAttrs (e # ancestors) kids (depth + 1) of
                  Inl err \<Rightarrow> Inl err
                | Inr rest \<Rightarrow> Inr (ElementLine line # rest)))
      | None \<Rightarrow> processNodes includeAttrs (e # ancestors) kids depth)"
| "processNode includeAttrs ancestors (TreeText t v) depth =
     (if hasParentWithHighlightIndex ancestors then Inr []
      else (case ancestors of
              [] \<Rightarrow> Inr []
            | parent # up \<Rightarrow>
                if tn_isVisible parent \<and> tn_isTopElement parent
                then Inr [TextLine (tabs depth @ t)] else Inr []))"
| "processNodes includeAttrs ancestors [] depth = Inr []"
| "processNodes includeAttrs ancestors (child # rest) depth =
     (case processNode includeAttrs ancestors child depth of
        Inl err \<Rightarrow> Inl err
      | Inr ls \<Rightarrow>
          (case processNodes includeAttrs ancestors rest depth of
             Inl err \<Rightarrow> Inl err
           | Inr ls' \<Rightarrow> Inr (ls @ ls')))"

definition flatTreeToString ::
  "nat \<Rightarrow> FlatDomTree \<Rightarrow> string list option \<Rightarrow> js_error + string" where
  "flatTreeToString stack flatTree include_attrs =
     (let includeAttrs = (case include_attrs of None \<Rightarrow> [] | Some l \<Rightarrow> l) @ DEFAULT_INCLUDE_ATTRIBUTES
      in (case buildTreeNode stack (nodeMap flatTree) (rootId flatTree) of
            Inl err \<Rightarrow> Inl err
          | Inr None \<Rightarrow> Inr []
          | Inr (Some rootNode) \<Rightarrow>
              (case processNode includeAttrs [] rootNode 0 of
                 Inl err \<Rightarrow> Inl err
               | Inr result \<Rightarrow> Inr (joinWith [CHR 0x0A] (map lineText result)))))"

text \<open>dom/getElementTextMap.ts: the regular expression \<^verbatim>\<open>^\[(\d+)\]<[^>]+>([^<]*)\<close>.\<close>

definition isDigit :: "char \<Rightarrow> bool" where
  "isDigit c = (c \<in> set ''0123456789'')"

definition digitValue :: "char \<Rightarrow> nat" where
  "digitValue c = (of_char c :: nat) - 48"

definition parseInt :: "string \<Rightarrow> nat" where
  "parseInt ds = foldl (\<lambda>n c. 10 * n + digitValue c) 0 ds"

definition matchIndexedLine :: "string \<Rightarrow> nat option" where
  "matchIndexedLine line =
     (case line of
        [] \<Rightarrow> None
      | c # cs \<Rightarrow>
          if c \<noteq> CHR ''['' then None
          else (let ds = takeWhile isDigit cs; r = dropWhile isDigit cs
                in if ds = [] then None
                   else (case r of
                           c1 # c2 # r2 \<Rightarrow>
                             if c1 = CHR '']'' \<and> c2 = CHR ''<''
                                \<and> takeWhile (\<lambda>x. x \<noteq> CHR ''>'') r2 \<noteq> []
                                \<and> dropWhile (\<lambda>x. x \<noteq> CHR ''>'') r2 \<noteq> []
                             then Some (parseInt ds) else None
                         | _ \<Rightarrow> None)))"

definition getElementTextMap :: "string \<Rightarrow> (nat \<times> string) list" where
  "getElementTextMap simplifiedHTML =
     (let ls = filter (\<lambda>line. jsLength line > 0) (map trim (splitOn (CHR 0x0A) simplifiedHTML))
      in fold (\<lambda>line elementTextMap.
                 (case matchIndexedLine line of
                    None \<Rightarrow> elementTextMap
                  | Some index \<Rightarrow> AList.update index line elementTextMap))
              ls [])"

section \<open>The controller (PlaywrightController.ts, actions.ts)\<close>

record ActionResult =
  success :: bool
  message :: string

record PlaywrightController =
  config :: DomTreeConfig
  flatTree :: "FlatDomTree option"
  selectorMap :: "(nat \<times> element_dom_node) list"
  elementTextMap :: "(nat \<times> string) list"
  simplifiedHTML :: string
  lastTimeUpdate :: int

definition newController :: "DomTreeConfig \<Rightarrow> PlaywrightController" where
  "newController cfg =
     \<lparr> config = cfg, flatTree = None, selectorMap = [], elementTextMap = [],
       simplifiedHTML = ''<EMPTY>'', lastTimeUpdate = 0 \<rparr>"

definition getSimplifiedHTML :: "PlaywrightController \<Rightarrow> string" where
  "getSimplifiedHTML c = simplifiedHTML c"

definition getElementText :: "PlaywrightController \<Rightarrow> nat \<Rightarrow> string option" where
  "getElementText c index = map_of (elementTextMap c) index"

definition getElementCount :: "PlaywrightController \<Rightarrow> nat" where
  "getElementCount c = length (selectorMap c)"

definition getLastUpdateTime :: "PlaywrightController \<Rightarrow> int" where
  "getLastUpdateTime c = lastTimeUpdate c"

definition getViewportExpansion :: "PlaywrightController \<Rightarrow> int" where
  "getViewportExpansion c =
     (case viewportExpansion (config c) of None \<Rightarrow> VIEWPORT_EXPANSION | Some v \<Rightarrow> v)"

text \<open>
  \<^verbatim>\<open>updateTree\<close> at the time \<open>now\<close>. When the serializer throws, the fields assigned
  before it keep their new values.
\<close>

definition updateTree ::
  "nat \<Rightarrow> int \<Rightarrow> page \<Rightarrow> PlaywrightController
     \<Rightarrow> (js_error + string) \<times> page \<times> PlaywrightController" where
  "updateTree stack now pg c =
     (case getFlatTree pg (config c) of
        (tree, pg') \<Rightarrow>
          (let c1 = c \<lparr> lastTimeUpdate := now, flatTree := Some tree \<rparr>
           in (case flatTreeToString stack tree (include_attributes (config c)) of
                 Inl err \<Rightarrow> (Inl err, pg', c1)
               | Inr html \<Rightarrow>
                   (Inr html, pg',
                    c1 \<lparr> simplifiedHTML := html,
                         selectorMap := getSelectorMap tree,
                         elementTextMap := getElementTextMap html \<rparr>))))"

definition dispose :: "PlaywrightController \<Rightarrow> PlaywrightController" where
  "dispose c = c \<lparr> flatTree := None, selectorMap := [], elementTextMap := [],
                    simplifiedHTML := ''<EMPTY>'' \<rparr>"

text \<open>
  What the browser answers to the calls of one action: for each Playwright call that
  can throw, the text of the error it throws (\<^verbatim>\<open>String(error)\<close>), if any.
\<close>

record browser_response =
  clickError :: "string option"
  fillError :: "string option"
  optionCount :: nat
  selectError :: "string option"
  scrollMessage :: string
  scrollHorizontallyMessage :: string
  scriptMessage :: string

definition undefinedLocatorError :: string where
  "undefinedLocatorError =
     ''TypeError: Cannot read properties of undefined (reading '' @ [CHR 0x27]
     @ ''scrollIntoViewIfNeeded'' @ [CHR 0x27] @ '')''"

text \<open>actions.ts\<close>

definition actions_clickElement :: "browser_response \<Rightarrow> locator option \<Rightarrow> ActionResult" where
  "actions_clickElement br l =
     (case (case l of None \<Rightarrow> Some undefinedLocatorError | Some x \<Rightarrow> clickError br) of
        None \<Rightarrow> \<lparr> success = True, message = checkMark @ '' Clicked element.'' \<rparr>
      | Some err \<Rightarrow> \<lparr> success = False, message = crossMark @ '' Failed to click element: '' @ err \<rparr>)"

definition actions_inputTextElement ::
  "browser_response \<Rightarrow> locator option \<Rightarrow> string \<Rightarrow> ActionResult" where
  "actions_inputTextElement br l text =
     (case (case l of None \<Rightarrow> Some undefinedLocatorError | Some x \<Rightarrow> fillError br) of
        None \<Rightarrow> \<lparr> success = True, message = checkMark @ '' Input text ('' @ text @ '') into element.'' \<rparr>
      | Some err \<Rightarrow> \<lparr> success = False, message = crossMark @ '' Failed to input text: '' @ err \<rparr>)"

definition actions_selectOptionElement ::
  "browser_response \<Rightarrow> locator option \<Rightarrow> string \<Rightarrow> ActionResult" where
  "actions_selectOptionElement br l optionText =
     (case (case l of None \<Rightarrow> Some undefinedLocatorError | Some x \<Rightarrow> selectError br) of
        None \<Rightarrow>
          (if optionCount br = 0
           then \<lparr> success = True,
                  message = skipSign @ '' Skipped selecting option ('' @ optionText
                            @ '') - no options available in dropdown.'' \<rparr>
           else \<lparr> success = True,
                  message = checkMark @ '' Selected option ('' @ optionText @ '') in element.'' \<rparr>)
      | Some err \<Rightarrow> \<lparr> success = False, message = crossMark @ '' Failed to select option: '' @ err \<rparr>)"

text \<open>An index as the tools pass it: \<open>None\<close> is \<^verbatim>\<open>undefined\<close>.\<close>

definition indexText :: "nat option \<Rightarrow> string" where
  "indexText index = (case index of None \<Rightarrow> ''undefined'' | Some i \<Rightarrow> showNat i)"

definition selectorMap_get ::
  "PlaywrightController \<Rightarrow> nat option \<Rightarrow> element_dom_node option" where
  "selectorMap_get c index = (case index of None \<Rightarrow> None | Some i \<Rightarrow> map_of (selectorMap c) i)"

definition elementName :: "PlaywrightController \<Rightarrow> nat option \<Rightarrow> string" where
  "elementName c index =
     (case (case index of None \<Rightarrow> None | Some i \<Rightarrow> map_of (elementTextMap c) i) of
        None \<Rightarrow> indexText index
      | Some elemText \<Rightarrow> elemText)"

definition notFoundError :: "nat option \<Rightarrow> js_error" where
  "notFoundError index = Error (''No interactive element found at index '' @ indexText index)"

definition clickElement ::
  "PlaywrightController \<Rightarrow> browser_response \<Rightarrow> nat option \<Rightarrow> ActionResult" where
  "clickElement c br index =
     (case selectorMap_get c index of
        None \<Rightarrow>
          \<lparr> success = False,
            message = crossMark @ '' Failed to click element: '' @ errorToString (notFoundError index) \<rparr>
      | Some interactiveNode \<Rightarrow>
          (let result = actions_clickElement br (locator interactiveNode)
           in if map_of (attributes interactiveNode) ''target'' = Some ''_blank''
              then \<lparr> success = True,
                     message = checkMark @ '' Clicked element ('' @ elementName c index @ ''). ''
                               @ warningSign
                               @ '' Link opens in a new tab. You are not capable of reading new tabs.'' \<rparr>
              else \<lparr> success = success result,
                     message = (if success result
                                then checkMark @ '' Clicked element ('' @ elementName c index @ '').''
                                else message result) \<rparr>))"

definition inputText ::
  "PlaywrightController \<Rightarrow> browser_response \<Rightarrow> nat option \<Rightarrow> string \<Rightarrow> ActionResult" where
  "inputText c br index text =
     (case selectorMap_get c index of
        None \<Rightarrow>
          \<lparr> success = False,
            message = crossMark @ '' Failed to input text: '' @ errorToString (notFoundError index) \<rparr>
      | Some interactiveNode \<Rightarrow>
          (let result = actions_inputTextElement br (locator interactiveNode) text
           in \<lparr> success = success result,
                message = (if success result
                           then checkMark @ '' Input text ('' @ text @ '') into element (''
                                @ elementName c index @ '').''
                           else message result) \<rparr>))"

definition selectOption ::
  "PlaywrightController \<Rightarrow> browser_response \<Rightarrow> nat option \<Rightarrow> string \<Rightarrow> ActionResult" where
  "selectOption c br index optionText =
     (case selectorMap_get c index of
        None \<Rightarrow>
          \<lparr> success = False,
            message = crossMark @ '' Failed to select option: '' @ errorToString (notFoundError index) \<rparr>
      | Some interactiveNode \<Rightarrow>
          (let result = actions_selectOptionElement br (locator interactiveNode) optionText
           in \<lparr> success = success result,
                message = (if success result
                           then checkMark @ '' Selected option ('' @ optionText @ '') in element (''
                                @ elementName c index @ '').''
                           else message result) \<rparr>))"

section \<open>The tools (tools/index.ts)\<close>

text \<open>
  The input object of a tool call: a field the object lacks is \<open>None\<close>. The scroll and
  script tools only hand their input to the page; their effect there is outside the
  model, which keeps the message the controller returns for them.
\<close>

record tool_input =
  in_text :: "string option"
  in_success :: "bool option"
  in_seconds :: "rat option"
  in_question :: "string option"
  in_index :: "nat option"
  in_script :: "string option"

datatype agent_tool =
  Done
  | Wait
  | AskUser
  | ClickElementByIndex
  | InputText
  | SelectDropdownOption
  | Scroll
  | ScrollHorizontally
  | ExecuteJavascript
  | CustomTool "js_error + string"

definition defaultTools :: "(string \<times> agent_tool) list" where
  "defaultTools =
     [(''done'', Done), (''wait'', Wait), (''ask_user'', AskUser),
      (''click_element_by_index'', ClickElementByIndex), (''input_text'', InputText),
      (''select_dropdown_option'', SelectDropdownOption), (''scroll'', Scroll),
      (''scroll_horizontally'', ScrollHorizontally), (''execute_javascript'', ExecuteJavascript)]"

text \<open>
  The input schema of \<^verbatim>\<open>done\<close>: \<^verbatim>\<open>zod.object({text: zod.string(), success:
  zod.boolean().default(true)})\<close>. Parsing keeps the two declared keys only.
\<close>

definition doneInputSchema :: "tool_input \<Rightarrow> js_error + tool_input" where
  "doneInputSchema raw =
     (case in_text raw of
        None \<Rightarrow> Inl (Error ''ZodError: text is required'')
      | Some t \<Rightarrow>
          Inr \<lparr> in_text = Some t,
                in_success = Some (case in_success raw of None \<Rightarrow> True | Some b \<Rightarrow> b),
                in_seconds = None, in_question = None, in_index = None, in_script = None \<rparr>)"

text \<open>
  A number in a template string. Exact for integers and for decimals of up to 17
  fractional digits, which covers the seconds of a \<^verbatim>\<open>wait\<close>.
\<close>

fun fractionDigits :: "nat \<Rightarrow> rat \<Rightarrow> string" where
  "fractionDigits 0 r = []"
| "fractionDigits (Suc n) r =
     (if r = 0 then []
      else digitChar (nat \<lfloor>r * 10\<rfloor>) # fractionDigits n (r * 10 - of_int \<lfloor>r * 10\<rfloor>))"

definition numberText :: "rat option \<Rightarrow> string" where
  "numberText x =
     (case x of
        None \<Rightarrow> ''undefined''
      | Some r \<Rightarrow>
          (if r < 0 then ''-'' else [])
          @ showNat (nat \<lfloor>\<bar>r\<bar>\<rfloor>)
          @ (if \<bar>r\<bar> - of_int \<lfloor>\<bar>r\<bar>\<rfloor> = 0 then []
             else ''.'' @ fractionDigits 17 (\<bar>r\<bar> - of_int \<lfloor>\<bar>r\<bar>\<rfloor>)))"

definition optionalText :: "string option \<Rightarrow> string" where
  "optionalText x = (case x of None \<Rightarrow> ''undefined'' | Some t \<Rightarrow> t)"

text \<open>\<^verbatim>\<open>tool.execute.bind(this)(toolInput)\<close>: the string the tool resolves to, or its error.\<close>

definition executeTool ::
  "agent_tool \<Rightarrow> PlaywrightController \<Rightarrow> browser_response \<Rightarrow> tool_input \<Rightarrow> js_error + string" where
  "executeTool tool c br input =
     (case tool of
        Done \<Rightarrow> Inr ''Task completed''
      | Wait \<Rightarrow> Inr (garbledCheckMark @ '' Waited for '' @ numberText (in_seconds input) @ '' seconds.'')
      | AskUser \<Rightarrow>
          Inr (garbledCheckMark @ '' User interaction needed. Please provide answer to: ''
               @ optionalText (in_question input))
      | ClickElementByIndex \<Rightarrow> Inr (message (clickElement c br (in_index input)))
      | InputText \<Rightarrow> Inr (message (inputText c br (in_index input) (optionalText (in_text input))))
      | SelectDropdownOption \<Rightarrow>
          Inr (message (selectOption c br (in_index input) (optionalText (in_text input))))
      | Scroll \<Rightarrow> Inr (scrollMessage br)
      | ScrollHorizontally \<Rightarrow> Inr (scrollHorizontallyMessage br)
      | ExecuteJavascript \<Rightarrow> Inr (scriptMessage br)
      | CustomTool r \<Rightarrow> r)"

section \<open>The agent (PlaywrightAgent.ts)\<close>

record AgentBrain =
  evaluation_previous_goal :: string
  memory :: string
  next_goal :: string

record MacroToolInput =
  mi_evaluation_previous_goal :: "string option"
  mi_memory :: "string option"
  mi_next_goal :: "string option"
  action :: "(string \<times> tool_input) list"

record MacroToolResult =
  macro_input :: MacroToolInput
  macro_output :: string

record Usage =
  promptTokens :: nat
  completionTokens :: nat
  totalTokens :: nat

record HistoryAction =
  name :: "string option"
  action_input :: "tool_input option"
  action_output :: string

record AgentHistory =
  brain :: AgentBrain
  history_action :: HistoryAction
  usage :: Usage

record ExecutionResult =
  result_success :: bool
  data :: string
  history :: "AgentHistory list"

record PlaywrightAgentConfig =
  dom_config :: DomTreeConfig
  customTools :: "(string \<times> agent_tool option) list option"
  experimentalScriptExecutionTool :: bool

text \<open>The total wait time is a number: \<open>None\<close> is \<^verbatim>\<open>NaN\<close>.\<close>

record PlaywrightAgent =
  tools :: "(string \<times> agent_tool) list"
  paused :: bool
  totalWaitTime :: "int option"
  playwrightController :: PlaywrightController

definition newAgent :: "PlaywrightAgentConfig \<Rightarrow> PlaywrightAgent" where
  "newAgent cfg =
     (let ts = (case customTools cfg of
                  None \<Rightarrow> defaultTools
                | Some custom \<Rightarrow>
                    fold (\<lambda>(name, tool) m.
                            (case tool of None \<Rightarrow> AList.delete name m | Some t \<Rightarrow> AList.update name t m))
                         custom defaultTools);
          ts = (if \<not> experimentalScriptExecutionTool cfg then AList.delete ''execute_javascript'' ts else ts)
      in \<lparr> tools = ts, paused = False, totalWaitTime = Some 0,
           playwrightController = newController (dom_config cfg) \<rparr>)"

text \<open>
  What happens around one execution of the macro tool: whether the abort signal is
  set, whether a pause outlasts the time limit of \<^verbatim>\<open>waitUntil\<close>, how many milliseconds
  the tool ran, and what the browser answers.
\<close>

record macro_env =
  aborted :: bool
  pauseTimedOut :: bool
  duration :: int
  browser :: browser_response

text \<open>\<^verbatim>\<open>Math.round\<close>\<close>

definition Math_round :: "rat \<Rightarrow> int" where
  "Math_round x = \<lfloor>x + 1 / 2\<rfloor>"

definition totalText :: "int option \<Rightarrow> string" where
  "totalText t = (case t of None \<Rightarrow> ''NaN'' | Some n \<Rightarrow> showInt n)"

text \<open>The \<^verbatim>\<open>execute\<close> function of the tool that \<^verbatim>\<open>#packMacroTool\<close> returns.\<close>

definition macroToolExecute ::
  "PlaywrightAgent \<Rightarrow> macro_env \<Rightarrow> MacroToolInput \<Rightarrow> (js_error + MacroToolResult) \<times> PlaywrightAgent" where
  "macroToolExecute agent env inp =
     (if aborted env then (Inl (Error ''AbortError''), agent)
      else if paused agent \<and> pauseTimedOut env
      then (Inl (Error ''Timeout waiting for condition to become true''), agent)
      else (case action inp of
              [] \<Rightarrow> (Inl (Error ''Tool undefined not found.''), agent)
            | (toolName, toolInput) # others \<Rightarrow>
                (case map_of (tools agent) toolName of
                   None \<Rightarrow> (Inl (Error (''Tool '' @ toolName @ '' not found.'')), agent)
                 | Some tool \<Rightarrow>
                     (case executeTool tool (playwrightController agent) (browser env) toolInput of
                        Inl err \<Rightarrow> (Inl err, agent)
                      | Inr result \<Rightarrow>
                          (if toolName = ''wait''
                           then (let total =
                                       (case (totalWaitTime agent, in_seconds toolInput) of
                                          (Some t, Some secs) \<Rightarrow>
                                            Some (t + Math_round (secs + of_int (duration env) / 1000))
                                        | _ \<Rightarrow> None);
                                     result = result @ [CHR 0x0A] @ ''<sys> You have waited ''
                                              @ totalText total @ '' seconds accumulatively.'';
                                     result = (if (case total of None \<Rightarrow> False | Some t \<Rightarrow> t \<ge> 3)
                                               then result @ [CHR 0x0A]
                                                    @ ''Do NOT wait any longer unless you have a good reason.''
                                                    @ [CHR 0x0A]
                                               else result);
                                     result = result @ ''</sys>''
                                 in (Inr \<lparr> macro_input = inp, macro_output = result \<rparr>,
                                     agent \<lparr> totalWaitTime := total \<rparr>))
                           else (Inr \<lparr> macro_input = inp, macro_output = result \<rparr>,
                                 agent \<lparr> totalWaitTime := Some 0 \<rparr>))))))"

text \<open>
  What one pass of the loop of \<^verbatim>\<open>execute\<close> meets: the abort signal at the top of the
  step; an exception before the step is recorded (of \<^verbatim>\<open>onBeforeStep\<close>, of the pause, of
  the prompt assembly or of the LLM client); the result the LLM client returns, which
  holds the \<^verbatim>\<open>MacroToolResult\<close> of the macro tool; or such a result followed by an
  exception of \<^verbatim>\<open>onAfterStep\<close>, which is thrown after the step has been recorded.

  During a run the signal is set by \<^verbatim>\<open>dispose()\<close> alone, and \<^verbatim>\<open>dispose()\<close> assigns the
  empty array to \<^verbatim>\<open>this.history\<close> before it sets the signal. \<open>Aborted\<close> is a call of
  \<^verbatim>\<open>dispose()\<close> between the end of the pass before and the test of the signal, so the
  history the \<^verbatim>\<open>catch\<close> block returns for it is empty. The other three events are
  those of a pass during which \<^verbatim>\<open>dispose()\<close> is not called.
\<close>

datatype step_event =
  Aborted
  | Thrown js_error
  | Returned MacroToolResult Usage
  | AfterStepThrown MacroToolResult Usage js_error

definition historyEntry :: "MacroToolResult \<Rightarrow> Usage \<Rightarrow> AgentHistory" where
  "historyEntry macroResult u =
     (let inp = macro_input macroResult;
          actionName = (case action inp of [] \<Rightarrow> None | (k, v) # others \<Rightarrow> Some k)
      in \<lparr> brain = \<lparr> evaluation_previous_goal =
                        (case mi_evaluation_previous_goal inp of None \<Rightarrow> [] | Some t \<Rightarrow> t),
                      memory = (case mi_memory inp of None \<Rightarrow> [] | Some t \<Rightarrow> t),
                      next_goal = (case mi_next_goal inp of None \<Rightarrow> [] | Some t \<Rightarrow> t) \<rparr>,
           history_action =
             \<lparr> name = actionName,
               action_input = (case action inp of [] \<Rightarrow> None | (k, v) # others \<Rightarrow> Some v),
               action_output = macro_output macroResult \<rparr>,
           usage = u \<rparr>)"

definition failed :: "js_error \<Rightarrow> AgentHistory list \<Rightarrow> ExecutionResult" where
  "failed err h = \<lparr> result_success = False, data = errorToString err, history = h \<rparr>"

text \<open>
  The \<^verbatim>\<open>while (true)\<close> loop of \<^verbatim>\<open>execute\<close> with its \<^verbatim>\<open>catch\<close>, for a step limit \<open>maxSteps\<close>;
  \<open>events step\<close> is what the pass numbered \<open>step\<close> meets.
\<close>

function executeLoop ::
  "nat \<Rightarrow> (nat \<Rightarrow> step_event) \<Rightarrow> nat \<Rightarrow> AgentHistory list \<Rightarrow> ExecutionResult" where
  "executeLoop maxSteps events step h =
     (case events step of
        Aborted \<Rightarrow> failed (Error ''AbortError'') []
      | Thrown err \<Rightarrow> failed err h
      | AfterStepThrown macroResult u err \<Rightarrow> failed err (h @ [historyEntry macroResult u])
      | Returned macroResult u \<Rightarrow>
          (let entry = historyEntry macroResult u;
               h' = h @ [entry];
               step' = step + 1
           in if step' > maxSteps
              then \<lparr> result_success = False, data = ''Step count exceeded maximum limit'',
                     history = h' \<rparr>
              else if name (history_action entry) = Some ''done''
              then \<lparr> result_success =
                       (case action_input (history_action entry) of
                          None \<Rightarrow> False
                        | Some i \<Rightarrow> (case in_success i of None \<Rightarrow> False | Some b \<Rightarrow> b)),
                     data =
                       (case action_input (history_action entry) of
                          None \<Rightarrow> ''no text provided''
                        | Some i \<Rightarrow>
                            (case in_text i of
                               None \<Rightarrow> ''no text provided''
                             | Some t \<Rightarrow> if t = [] then ''no text provided'' else t)),
                     history = h' \<rparr>
              else executeLoop maxSteps events step' h'))"
  by pat_completeness auto
termination
  by (relation "measure (\<lambda>(maxSteps, events, step, h). Suc maxSteps - step)") auto

declare executeLoop.simps [simp del]


section \<open>A small page, used where a statement is run on a concrete input\<close>

definition plainStyle :: computedStyle where
  "plainStyle = \<lparr> visibility = ''visible'', display = ''block'', cursor = ''auto'',
                   overflowX = ''visible'', overflowY = ''visible'' \<rparr>"

definition plainRect :: domRect where
  "plainRect = \<lparr> rect_x = 10, rect_y = 20, rect_width = 100, rect_height = 20 \<rparr>"

definition plainElement :: "string \<Rightarrow> (string \<times> string) list \<Rightarrow> dom_element" where
  "plainElement tag attrs =
     \<lparr> el_tagName = tag, el_attributes = attrs, offsetWidth = 100, offsetHeight = 20,
       style = plainStyle, boundingClientRect = plainRect, centreHit = True,
       disabled = False, readOnly = False, isContentEditable = False, onclick = False,
       inputType = [], checked = False, scrollWidth = 100, clientWidth = 100,
       scrollHeight = 20, clientHeight = 20, scrollTop = 0, scrollLeft = 0 \<rparr>"

definition examplePage :: page where
  "examplePage =
     \<lparr> body = ElementNode (plainElement ''BODY'' [])
                [ElementNode (plainElement ''H1'' []) [TextNode ''Example''],
                 ElementNode (plainElement ''A'' [(''href'', ''/x''), (''target'', ''_blank'')])
                   [TextNode ''more''],
                 ElementNode (plainElement ''INPUT'' [(''id'', ''q'')]) []],
       innerWidth = 1280, innerHeight = 720, scrollbarWidth = 0, scrollbarHeight = 0 \<rparr>"

definition defaultConfig :: DomTreeConfig where
  "defaultConfig = \<lparr> viewportExpansion = None, include_attributes = None \<rparr>"

definition exampleController :: PlaywrightController where
  "exampleController = snd (snd (updateTree 100 1000 examplePage (newController defaultConfig)))"

definition failingBrowser :: browser_response where
  "failingBrowser =
     \<lparr> clickError = Some ''TimeoutError: locator.click: Timeout 5000ms exceeded.'',
       fillError = None, optionCount = 0, selectError = None, scrollMessage = [],
       scrollHorizontallyMessage = [], scriptMessage = [] \<rparr>"

section \<open>Runs of the loop\<close>

text \<open>The history entry a pass appends, and the name of the action it records.\<close>

definition entryOf :: "step_event \<Rightarrow> AgentHistory option" where
  "entryOf e =
     (case e of
        Returned macroResult u \<Rightarrow> Some (historyEntry macroResult u)
      | AfterStepThrown macroResult u err \<Rightarrow> Some (historyEntry macroResult u)
      | _ \<Rightarrow> None)"

definition actionName :: "MacroToolResult \<Rightarrow> string option" where
  "actionName macroResult =
     (case action (macro_input macroResult) of [] \<Rightarrow> None | (k, v) # others \<Rightarrow> Some k)"

definition emptyInput :: tool_input where
  "emptyInput = \<lparr> in_text = None, in_success = None, in_seconds = None, in_question = None,
                   in_index = None, in_script = None \<rparr>"

definition callOf :: "string \<Rightarrow> tool_input \<Rightarrow> MacroToolInput" where
  "callOf toolName toolInput =
     \<lparr> mi_evaluation_previous_goal = None, mi_memory = None, mi_next_goal = None,
       action = [(toolName, toolInput)] \<rparr>"

definition noUsage :: Usage where
  "noUsage = \<lparr> promptTokens = 0, completionTokens = 0, totalTokens = 0 \<rparr>"

definition clickForever :: "nat \<Rightarrow> step_event" where
  "clickForever step =
     Returned \<lparr> macro_input = callOf ''click_element_by_index'' (emptyInput \<lparr> in_index := Some step \<rparr>),
                macro_output = ''clicked'' \<rparr> noUsage"

definition clickThenDone :: "nat \<Rightarrow> step_event" where
  "clickThenDone step =
     (if step = 0 then clickForever 0
      else Returned \<lparr> macro_input = callOf ''done'' (emptyInput \<lparr> in_text := Some ''All set'' \<rparr>),
                      macro_output = ''Task completed'' \<rparr> noUsage)"

definition doneWithoutText :: "nat \<Rightarrow> step_event" where
  "doneWithoutText step =
     Returned \<lparr> macro_input = callOf ''done'' (emptyInput \<lparr> in_text := Some [], in_success := Some True \<rparr>),
                macro_output = ''Task completed'' \<rparr> noUsage"

section \<open>An agent on the small page\<close>

definition exampleAgent :: PlaywrightAgent where
  "exampleAgent =
     (newAgent \<lparr> dom_config = defaultConfig, customTools = None,
                 experimentalScriptExecutionTool = False \<rparr>)
       \<lparr> playwrightController := exampleController \<rparr>"

definition calmEnv :: macro_env where
  "calmEnv = \<lparr> aborted = False, pauseTimedOut = False, duration = 1000,
                browser = failingBrowser \<lparr> clickError := None \<rparr> \<rparr>"

text \<open>
  Two runs in which the LLM client hands on what the macro tool did, its result or its
  exception.
\<close>

definition clickMissingThenDone :: "nat \<Rightarrow> step_event" where
  "clickMissingThenDone step =
     (if step = 0
      then (case fst (macroToolExecute exampleAgent calmEnv
                        (callOf ''click_element_by_index'' (emptyInput \<lparr> in_index := Some 7 \<rparr>))) of
              Inl err \<Rightarrow> Thrown err
            | Inr macroResult \<Rightarrow> Returned macroResult noUsage)
      else Returned \<lparr> macro_input = callOf ''done'' (emptyInput \<lparr> in_text := Some ''gave up'' \<rparr>),
                      macro_output = ''Task completed'' \<rparr> noUsage)"

definition unknownToolCall :: "nat \<Rightarrow> step_event" where
  "unknownToolCall step =
     (case fst (macroToolExecute exampleAgent calmEnv (callOf ''fly'' emptyInput)) of
        Inl err \<Rightarrow> Thrown err
      | Inr macroResult \<Rightarrow> Returned macroResult noUsage)"

section \<open>Text in the serialized tree\<close>









section \<open>Removal of duplicate attribute values\<close>

text \<open>
  Two snapshots of one indexed element each. In the first, \<^verbatim>\<open>title\<close> and \<^verbatim>\<open>alt\<close> carry the
  same value of 11 characters; in the second, \<^verbatim>\<open>name\<close> and \<^verbatim>\<open>id\<close> carry a value that is
  the name of a property of \<^verbatim>\<open>Object.prototype\<close>.
\<close>

definition duplicateValueTree :: FlatDomTree where
  "duplicateValueTree =
     \<lparr> rootId = ''1'',
       nodeMap =
         [(''0'', TextDomNode ''more'' True),
          (''1'', ElementDomNode
             \<lparr> tagName = ''a'',
               attributes = [(''title'', ''Hello world''), (''alt'', ''Hello world'')],
               children = [''0''], isVisible = Some True, isTopElement = Some True,
               isInViewport = Some True, isNew = None, isInteractive = Some True,
               highlightIndex = Some 0, extra = None,
               locator = Some (Locator (markerSelector 0)) \<rparr>)] \<rparr>"

definition prototypeValueTree :: FlatDomTree where
  "prototypeValueTree =
     \<lparr> rootId = ''0'',
       nodeMap =
         [(''0'', ElementDomNode
             \<lparr> tagName = ''input'',
               attributes = [(''name'', ''constructor''), (''id'', ''constructor'')],
               children = [], isVisible = Some True, isTopElement = Some True,
               isInViewport = Some True, isNew = None, isInteractive = Some True,
               highlightIndex = Some 0, extra = None,
               locator = Some (Locator (markerSelector 0)) \<rparr>)] \<rparr>"

section \<open>Indices and markers of one extraction pass\<close>

text \<open>
  The highlight indices of the nodes of a node table, in the order of the table, and
  the values of the marker attribute on the elements of a page, in document order.
\<close>

fun indicesOf :: "(string \<times> dom_node_flat) list \<Rightarrow> nat list" where
  "indicesOf [] = []"
| "indicesOf ((k, TextDomNode t v) # rest) = indicesOf rest"
| "indicesOf ((k, ElementDomNode d) # rest) =
     (case highlightIndex d of None \<Rightarrow> indicesOf rest | Some i \<Rightarrow> i # indicesOf rest)"

fun markersOf :: "dom_node \<Rightarrow> string list" where
  "markersOf (TextNode t) = []"
| "markersOf OtherNode = []"
| "markersOf (ElementNode element kids) =
     (case map_of (el_attributes element) markerAttribute of None \<Rightarrow> [] | Some m \<Rightarrow> [m])
     @ concat (map markersOf kids)"

text \<open>The node table holds one entry for each identifier handed out so far.\<close>

definition wf_walk :: "walk_state \<Rightarrow> bool" where
  "wf_walk s = (map fst (DOM_HASH_MAP s) = map showNat [0..<ID_current s])"

text \<open>What the in-page walk stores: no locator yet, and an index only on interactive nodes.\<close>

fun storedNode :: "dom_node_flat \<Rightarrow> bool" where
  "storedNode (TextDomNode t v) = True"
| "storedNode (ElementDomNode d) =
     (locator d = None \<and> (highlightIndex d \<noteq> None \<longrightarrow> isInteractive d = Some True))"

text \<open>The condition under which the walk gives an element an index.\<close>

definition indexable :: "page \<Rightarrow> int \<Rightarrow> dom_element \<Rightarrow> bool" where
  "indexable pg vx element =
     (isElementVisible element \<and> isTopElement_el pg element vx \<and> isInteractiveElement element
      \<and> (isInViewport_el pg element vx \<or> vx = - 1))"

text \<open>
  How a later state of the walk stands to an earlier one: the table has grown by
  entries whose highlight indices are the numbers the counter has passed.
\<close>

definition walked_from :: "walk_state \<Rightarrow> walk_state \<Rightarrow> bool" where
  "walked_from s s' =
     (wf_walk s' \<and> highlightCounter s \<le> highlightCounter s'
      \<and> (\<exists>new. DOM_HASH_MAP s' = DOM_HASH_MAP s @ new
                \<and> mset (indicesOf new) = mset [highlightCounter s..<highlightCounter s']
                \<and> list_all (\<lambda>entry. storedNode (snd entry)) new))"

text \<open>The node at a path of child positions, and whether the walk reaches it.\<close>

fun nodeAt :: "dom_node \<Rightarrow> nat list \<Rightarrow> dom_node option" where
  "nodeAt node [] = Some node"
| "nodeAt (ElementNode element kids) (i # path) =
     (if i < length kids then nodeAt (kids ! i) path else None)"
| "nodeAt (TextNode t) (i # path) = None"
| "nodeAt OtherNode (i # path) = None"

fun visits :: "dom_node \<Rightarrow> nat list \<Rightarrow> bool" where
  "visits (ElementNode element kids) [] = (toLowerCase (el_tagName element) \<notin> set skipTags)"
| "visits (ElementNode element kids) (i # path) =
     (toLowerCase (el_tagName element) \<notin> set skipTags \<and> i < length kids \<and> visits (kids ! i) path)"
| "visits (TextNode t) path = False"
| "visits OtherNode path = False"

text \<open>
  \<^verbatim>\<open>getBoundingClientRect\<close> returns the box that bounds an element: its width and its
  height are not negative.
\<close>

definition boxed :: "dom_element \<Rightarrow> bool" where
  "boxed element =
     (0 \<le> rect_width (boundingClientRect element) \<and> 0 \<le> rect_height (boundingClientRect element))"

text \<open>A node of the snapshot that is marked interactive and carries no index.\<close>

fun interactiveUnindexed :: "dom_node_flat \<Rightarrow> bool" where
  "interactiveUnindexed (TextDomNode t v) = False"
| "interactiveUnindexed (ElementDomNode d) = (isInteractive d = Some True \<and> highlightIndex d = None)"

definition farRect :: domRect where
  "farRect = \<lparr> rect_x = 10, rect_y = 2000, rect_width = 100, rect_height = 20 \<rparr>"

definition farButton :: dom_element where
  "farButton = (plainElement ''BUTTON'' [(''id'', ''far'')]) \<lparr> boundingClientRect := farRect \<rparr>"

definition longPage :: page where
  "longPage =
     \<lparr> body = ElementNode (plainElement ''BODY'' [])
                [ElementNode (plainElement ''A'' [(''href'', ''/top'')]) [TextNode ''top''],
                 ElementNode farButton [TextNode ''far away'']],
       innerWidth = 1280, innerHeight = 720, scrollbarWidth = 0, scrollbarHeight = 0 \<rparr>"

definition viewportOnly :: DomTreeConfig where
  "viewportOnly = \<lparr> viewportExpansion = Some 0, include_attributes = None \<rparr>"

section \<open>Decimal numerals\<close>

lemma showNat_small: "n < 10 \<Longrightarrow> showNat n = [digitChar n]"
  by (simp add: showNat.simps)

section \<open>The controller before its first update and after disposal\<close>

text \<open>
  C10. A controller that has never run \<^verbatim>\<open>updateTree\<close>, and any controller after
  \<^verbatim>\<open>dispose()\<close>, returns the sentinel \<^verbatim>\<open><EMPTY>\<close> (which is not the empty string) from
  \<^verbatim>\<open>getSimplifiedHTML\<close>, 0 from \<^verbatim>\<open>getElementCount\<close>, and \<^verbatim>\<open>undefined\<close> (here \<open>None\<close>) from
  \<^verbatim>\<open>getElementText(i)\<close> for every index \<open>i\<close>.
\<close>

theorem controller_empty_before_update_and_after_dispose:
  "getSimplifiedHTML (newController cfg) = ''<EMPTY>''
   \<and> getSimplifiedHTML (newController cfg) \<noteq> []
   \<and> getElementCount (newController cfg) = 0
   \<and> getElementText (newController cfg) i = None
   \<and> getSimplifiedHTML (dispose c) = ''<EMPTY>''
   \<and> getSimplifiedHTML (dispose c) \<noteq> []
   \<and> getElementCount (dispose c) = 0
   \<and> getElementText (dispose c) i = None"
  by (simp add: getSimplifiedHTML_def getElementCount_def getElementText_def
        newController_def dispose_def)

lemma exampleController_html:
  "getSimplifiedHTML exampleController =
     ''Example'' @ [CHR 0x0A] @ ''[0]<a target=_blank>more />'' @ [CHR 0x0A] @ ''[1]<input id=q />''"
  by code_simp

lemma exampleController_count: "getElementCount exampleController = 2"
  by code_simp

lemma exampleController_text: "getElementText exampleController 0 = Some ''[0]<a target=_blank>more />''"
  by code_simp

theorem controller_empty_witness:
  "getElementCount exampleController = 2
   \<and> getElementText exampleController 0 = Some ''[0]<a target=_blank>more />''
   \<and> getSimplifiedHTML (dispose exampleController) = ''<EMPTY>''
   \<and> getElementCount (dispose exampleController) = 0
   \<and> getElementText (dispose exampleController) 0 = None
   \<and> getSimplifiedHTML (newController defaultConfig) = ''<EMPTY>''
   \<and> getElementCount (newController defaultConfig) = 0
   \<and> getElementText (newController defaultConfig) 0 = None"
  using controller_empty_before_update_and_after_dispose [of defaultConfig 0 exampleController]
    exampleController_count exampleController_text
  by simp

section \<open>Clicking a link that opens a new tab\<close>

text \<open>
  C6. A click on the link of the small page, which has \<^verbatim>\<open>target="_blank"\<close>, while the
  browser lets \<^verbatim>\<open>locator.click()\<close> time out. The click itself fails: \<^verbatim>\<open>clickElement\<close> of
  actions.ts returns \<open>success = false\<close> and the message of the failure. The controller
  never reads that result on the branch for \<^verbatim>\<open>_blank\<close>: it returns \<open>success = true\<close> and
  the message of a successful click with the warning about the new tab. On the branch
  beside it, taken for the input field at index 1, the same failure is handed on as
  \<open>success = false\<close>.
\<close>

theorem click_target_blank_failed_click_reported_success:
  "map_of (attributes (the (selectorMap_get exampleController (Some 0)))) ''target'' = Some ''_blank''
   \<and> actions_clickElement failingBrowser (locator (the (selectorMap_get exampleController (Some 0))))
       = \<lparr> success = False,
           message = crossMark @ '' Failed to click element: ''
                     @ ''TimeoutError: locator.click: Timeout 5000ms exceeded.'' \<rparr>
   \<and> clickElement exampleController failingBrowser (Some 0)
       = \<lparr> success = True,
           message = checkMark @ '' Clicked element ([0]<a target=_blank>more />). '' @ warningSign
                     @ '' Link opens in a new tab. You are not capable of reading new tabs.'' \<rparr>
   \<and> clickElement exampleController failingBrowser (Some 1)
       = \<lparr> success = False,
           message = crossMark @ '' Failed to click element: ''
                     @ ''TimeoutError: locator.click: Timeout 5000ms exceeded.'' \<rparr>"
  by code_simp

section \<open>The step budget and the done action\<close>

lemma name_historyEntry: "name (history_action (historyEntry r u)) = actionName r"
  by (simp add: historyEntry_def actionName_def Let_def)

lemma executeLoop_Returned:
  assumes "events step = Returned r u"
  shows "executeLoop maxSteps events step h =
           (if step + 1 > maxSteps
            then \<lparr> result_success = False, data = ''Step count exceeded maximum limit'',
                   history = h @ [historyEntry r u] \<rparr>
            else if actionName r = Some ''done''
            then \<lparr> result_success =
                     (case action_input (history_action (historyEntry r u)) of
                        None \<Rightarrow> False
                      | Some i \<Rightarrow> (case in_success i of None \<Rightarrow> False | Some b \<Rightarrow> b)),
                   data =
                     (case action_input (history_action (historyEntry r u)) of
                        None \<Rightarrow> ''no text provided''
                      | Some i \<Rightarrow>
                          (case in_text i of
                             None \<Rightarrow> ''no text provided''
                           | Some t \<Rightarrow> if t = [] then ''no text provided'' else t)),
                   history = h @ [historyEntry r u] \<rparr>
            else executeLoop maxSteps events (step + 1) (h @ [historyEntry r u]))"
  using assms by (subst executeLoop.simps) (simp add: Let_def name_historyEntry)




lemma executeLoop_done:
  assumes "\<forall>j. step \<le> j \<and> j < k \<longrightarrow>
             (\<exists>r u. events j = Returned r u \<and> actionName r \<noteq> Some ''done'')"
    and "events k = Returned r u"
    and "action (macro_input r) = (''done'', i) # others"
    and "k < maxSteps"
    and "step \<le> k"
  shows "executeLoop maxSteps events step h =
           \<lparr> result_success = (case in_success i of None \<Rightarrow> False | Some b \<Rightarrow> b),
             data = (case in_text i of
                       None \<Rightarrow> ''no text provided''
                     | Some t \<Rightarrow> if t = [] then ''no text provided'' else t),
             history = h @ List.map_filter entryOf (map events [step..<Suc k]) \<rparr>"
  using assms(1,5)
proof (induction "k - step" arbitrary: step h)
  case 0
  then have eq: "step = k" by simp
  show ?case
    using assms(2,3,4) eq
    by (simp add: executeLoop_Returned [where events = events and step = k and r = r and u = u]
        List.map_filter_def entryOf_def actionName_def historyEntry_def Let_def)
next
  case (Suc n)
  then have lt: "step < k" by simp
  from Suc.prems(1) lt obtain r' u'
    where r': "events step = Returned r' u'" and nd: "actionName r' \<noteq> Some ''done''"
    by (metis le_refl)
  have ih: "executeLoop maxSteps events (Suc step) (h @ [historyEntry r' u']) =
           \<lparr> result_success = (case in_success i of None \<Rightarrow> False | Some b \<Rightarrow> b),
             data = (case in_text i of
                       None \<Rightarrow> ''no text provided''
                     | Some t \<Rightarrow> if t = [] then ''no text provided'' else t),
             history = (h @ [historyEntry r' u']) @ List.map_filter entryOf (map events [Suc step..<Suc k]) \<rparr>"
  proof (rule Suc.hyps(1))
    show "n = k - Suc step" using Suc.hyps(2) by simp
    show "\<forall>j. Suc step \<le> j \<and> j < k \<longrightarrow>
            (\<exists>r u. events j = Returned r u \<and> actionName r \<noteq> Some ''done'')"
      using Suc.prems(1) by auto
    show "Suc step \<le> k" using lt by simp
  qed
  have upt: "[step..<Suc k] = step # [Suc step..<Suc k]"
    using lt by (simp add: upt_conv_Cons)
  show ?case
    using lt nd ih assms(4)
    by (simp add: executeLoop_Returned [where events = events and step = step and r = r' and u = u']
        upt List.map_filter_def entryOf_def r' del: upt_Suc)
qed

text \<open>
  C2, as amended. When the action of pass \<open>k\<close> is \<^verbatim>\<open>done\<close>, \<open>k\<close> is one of the first
  \<open>maxSteps\<close> passes and no earlier pass ended the task, the loop returns at once with
  the history so far, \<open>success = input.success ?? false\<close>, and as data \<open>input.text\<close> when
  that is a non-empty string, else the text \<^verbatim>\<open>no text provided\<close>. The input schema of
  the \<^verbatim>\<open>done\<close> tool fills in \<open>success = true\<close> when the model omits it.
\<close>

theorem done_within_budget_terminates:
  assumes "\<forall>j<k. \<exists>r u. events j = Returned r u \<and> actionName r \<noteq> Some ''done''"
    and "events k = Returned r u"
    and "action (macro_input r) = (''done'', i) # others"
    and "k < maxSteps"
  shows "executeLoop maxSteps events 0 [] =
           \<lparr> result_success = (case in_success i of None \<Rightarrow> False | Some b \<Rightarrow> b),
             data = (case in_text i of
                       None \<Rightarrow> ''no text provided''
                     | Some t \<Rightarrow> if t = [] then ''no text provided'' else t),
             history = List.map_filter entryOf (map events [0..<Suc k]) \<rparr>
         \<and> (in_text raw = Some t \<and> in_success raw = None \<longrightarrow>
              doneInputSchema raw = Inr (emptyInput \<lparr> in_text := Some t, in_success := Some True \<rparr>))"
proof -
  have "executeLoop maxSteps events 0 [] =
           \<lparr> result_success = (case in_success i of None \<Rightarrow> False | Some b \<Rightarrow> b),
             data = (case in_text i of
                       None \<Rightarrow> ''no text provided''
                     | Some t \<Rightarrow> if t = [] then ''no text provided'' else t),
             history = [] @ List.map_filter entryOf (map events [0..<Suc k]) \<rparr>"
    by (rule executeLoop_done [where events = events and k = k and r = r and u = u
          and others = others])
      (use assms in auto)
  then show ?thesis
    by (auto simp add: doneInputSchema_def emptyInput_def simp del: upt_Suc)
qed

theorem done_within_budget_witness:
  "result_success (executeLoop MAX_STEPS clickThenDone 0 []) = False
   \<and> data (executeLoop MAX_STEPS clickThenDone 0 []) = ''All set''
   \<and> length (history (executeLoop MAX_STEPS clickThenDone 0 [])) = 2
   \<and> doneInputSchema (emptyInput \<lparr> in_text := Some ''All set'' \<rparr>)
       = Inr (emptyInput \<lparr> in_text := Some ''All set'', in_success := Some True \<rparr>)"
proof -
  have h1: "\<forall>j<1. \<exists>r u. clickThenDone j = Returned r u \<and> actionName r \<noteq> Some ''done''"
    by (simp add: clickThenDone_def clickForever_def actionName_def callOf_def)
  have h2: "clickThenDone 1 =
              Returned \<lparr> macro_input = callOf ''done'' (emptyInput \<lparr> in_text := Some ''All set'' \<rparr>),
                         macro_output = ''Task completed'' \<rparr> noUsage"
    by (simp add: clickThenDone_def)
  have h3: "action (macro_input \<lparr> macro_input = callOf ''done'' (emptyInput \<lparr> in_text := Some ''All set'' \<rparr>),
                                 macro_output = ''Task completed'' \<rparr>)
              = (''done'', emptyInput \<lparr> in_text := Some ''All set'' \<rparr>) # []"
    by (simp add: callOf_def)
  have h4: "1 < MAX_STEPS" by (simp add: MAX_STEPS_def)
  have up: "[0..<Suc 1] = [0, 1]" by (simp add: upt_rec)
  show ?thesis
    using done_within_budget_terminates [where events = clickThenDone and k = 1
        and maxSteps = MAX_STEPS and raw = "emptyInput \<lparr> in_text := Some ''All set'' \<rparr>"
        and t = "''All set''", OF h1 h2 h3 h4]
    by (simp add: up List.map_filter_def entryOf_def clickThenDone_def clickForever_def emptyInput_def
        del: upt_Suc)
qed

text \<open>
  The claim C2 as stated fails: a \<^verbatim>\<open>done\<close> action whose text is the empty string does not
  return that text as data.
\<close>

theorem done_data_counterexample:
  "in_text (snd (hd (action (macro_input
      \<lparr> macro_input = callOf ''done'' (emptyInput \<lparr> in_text := Some [], in_success := Some True \<rparr>),
        macro_output = ''Task completed'' \<rparr>)))) = Some []
   \<and> data (executeLoop MAX_STEPS doneWithoutText 0 []) = ''no text provided''
   \<and> data (executeLoop MAX_STEPS doneWithoutText 0 []) \<noteq> []
   \<and> result_success (executeLoop MAX_STEPS doneWithoutText 0 []) = True"
proof -
  have e: "doneWithoutText 0 =
     Returned \<lparr> macro_input = callOf ''done'' (emptyInput \<lparr> in_text := Some [], in_success := Some True \<rparr>),
                macro_output = ''Task completed'' \<rparr> noUsage"
    by (simp add: doneWithoutText_def)
  show ?thesis
    by (simp add: executeLoop_Returned [where events = doneWithoutText and step = 0, OF e]
        actionName_def historyEntry_def callOf_def emptyInput_def MAX_STEPS_def Let_def)
qed

section \<open>The wait accumulator\<close>

lemma exampleAgent_click: "map_of (tools exampleAgent) ''click_element_by_index'' = Some ClickElementByIndex"
  by code_simp

lemma exampleAgent_paused: "\<not> paused exampleAgent"
  by code_simp

lemma exampleAgent_controller: "playwrightController exampleAgent = exampleController"
  by (simp add: exampleAgent_def)

text \<open>
  C8. Two calls of \<^verbatim>\<open>wait\<close> for 1 second, each of which the tool ran for 1000
  milliseconds, on an agent whose accumulator is 0. The wait that has passed is 1
  second after the first call and 2 seconds after the second. The code adds the
  seconds asked for and the seconds measured, so the accumulator is 2 after the first
  call and 4 after the second: the output of the first call says both \<^verbatim>\<open>Waited for 1
  seconds\<close> and \<^verbatim>\<open>You have waited 2 seconds accumulatively\<close>, and the second call, after
  2 seconds of waiting, carries the note that is due from 3 seconds on. A click after
  them sets the accumulator to 0.
\<close>

theorem wait_counted_twice:
  "duration calmEnv = 1000
   \<and> macroToolExecute exampleAgent calmEnv (callOf ''wait'' (emptyInput \<lparr> in_seconds := Some 1 \<rparr>)) =
     (Inr \<lparr> macro_input = callOf ''wait'' (emptyInput \<lparr> in_seconds := Some 1 \<rparr>),
            macro_output = garbledCheckMark @ '' Waited for 1 seconds.'' @ [CHR 0x0A]
                           @ ''<sys> You have waited 2 seconds accumulatively.</sys>'' \<rparr>,
      exampleAgent \<lparr> totalWaitTime := Some 2 \<rparr>)
   \<and> macroToolExecute (exampleAgent \<lparr> totalWaitTime := Some 2 \<rparr>) calmEnv
         (callOf ''wait'' (emptyInput \<lparr> in_seconds := Some 1 \<rparr>)) =
     (Inr \<lparr> macro_input = callOf ''wait'' (emptyInput \<lparr> in_seconds := Some 1 \<rparr>),
            macro_output = garbledCheckMark @ '' Waited for 1 seconds.'' @ [CHR 0x0A]
                           @ ''<sys> You have waited 4 seconds accumulatively.'' @ [CHR 0x0A]
                           @ ''Do NOT wait any longer unless you have a good reason.'' @ [CHR 0x0A]
                           @ ''</sys>'' \<rparr>,
      exampleAgent \<lparr> totalWaitTime := Some 4 \<rparr>)
   \<and> totalWaitTime (snd (macroToolExecute (exampleAgent \<lparr> totalWaitTime := Some 4 \<rparr>) calmEnv
         (callOf ''click_element_by_index'' (emptyInput \<lparr> in_index := Some 1 \<rparr>)))) = Some 0"
  by code_simp

section \<open>Failures to resolve a tool name or an element index\<close>

text \<open>
  C7, as amended. When \<^verbatim>\<open>click_element_by_index\<close>, \<^verbatim>\<open>input_text\<close> or
  \<^verbatim>\<open>select_dropdown_option\<close> is called with an index that the current selector map does
  not hold, nothing is thrown: the macro tool returns a result whose output is the
  failure message; a pass of the loop that receives such a result (within the step
  limit) appends it to the history with that output and goes on to the next pass. When
  the tool name is not in the registry, the macro tool throws \<^verbatim>\<open>Tool <name> not found.\<close>
  and returns no result; an exception that reaches the loop ends the task with
  \<open>success = false\<close>.
\<close>

theorem unresolved_index_reported_unknown_tool_thrown:
  assumes "\<not> aborted env"
    and "\<not> (paused agent \<and> pauseTimedOut env)"
    and "action inp = (toolName, toolInput) # others"
  shows "(toolName \<noteq> ''wait''
            \<and> selectorMap_get (playwrightController agent) (in_index toolInput) = None \<longrightarrow>
            (map_of (tools agent) toolName = Some ClickElementByIndex \<longrightarrow>
               macroToolExecute agent env inp =
                 (Inr \<lparr> macro_input = inp,
                        macro_output = crossMark
                          @ '' Failed to click element: Error: No interactive element found at index ''
                          @ indexText (in_index toolInput) \<rparr>,
                  agent \<lparr> totalWaitTime := Some 0 \<rparr>))
            \<and> (map_of (tools agent) toolName = Some InputText \<longrightarrow>
               macroToolExecute agent env inp =
                 (Inr \<lparr> macro_input = inp,
                        macro_output = crossMark
                          @ '' Failed to input text: Error: No interactive element found at index ''
                          @ indexText (in_index toolInput) \<rparr>,
                  agent \<lparr> totalWaitTime := Some 0 \<rparr>))
            \<and> (map_of (tools agent) toolName = Some SelectDropdownOption \<longrightarrow>
               macroToolExecute agent env inp =
                 (Inr \<lparr> macro_input = inp,
                        macro_output = crossMark
                          @ '' Failed to select option: Error: No interactive element found at index ''
                          @ indexText (in_index toolInput) \<rparr>,
                  agent \<lparr> totalWaitTime := Some 0 \<rparr>)))
         \<and> (events k = Returned r u \<and> actionName r \<noteq> Some ''done'' \<and> k < maxSteps \<longrightarrow>
               executeLoop maxSteps events k h
                 = executeLoop maxSteps events (k + 1) (h @ [historyEntry r u])
               \<and> action_output (history_action (historyEntry r u)) = macro_output r)
         \<and> (map_of (tools agent) toolName = None \<longrightarrow>
               macroToolExecute agent env inp = (Inl (Error (''Tool '' @ toolName @ '' not found.'')), agent))
         \<and> (events k = Thrown err \<longrightarrow> executeLoop maxSteps events k h = failed err h)"
proof -
  have tool: "toolName \<noteq> ''wait''
            \<and> selectorMap_get (playwrightController agent) (in_index toolInput) = None \<longrightarrow>
            (map_of (tools agent) toolName = Some ClickElementByIndex \<longrightarrow>
               macroToolExecute agent env inp =
                 (Inr \<lparr> macro_input = inp,
                        macro_output = crossMark
                          @ '' Failed to click element: Error: No interactive element found at index ''
                          @ indexText (in_index toolInput) \<rparr>,
                  agent \<lparr> totalWaitTime := Some 0 \<rparr>))
            \<and> (map_of (tools agent) toolName = Some InputText \<longrightarrow>
               macroToolExecute agent env inp =
                 (Inr \<lparr> macro_input = inp,
                        macro_output = crossMark
                          @ '' Failed to input text: Error: No interactive element found at index ''
                          @ indexText (in_index toolInput) \<rparr>,
                  agent \<lparr> totalWaitTime := Some 0 \<rparr>))
            \<and> (map_of (tools agent) toolName = Some SelectDropdownOption \<longrightarrow>
               macroToolExecute agent env inp =
                 (Inr \<lparr> macro_input = inp,
                        macro_output = crossMark
                          @ '' Failed to select option: Error: No interactive element found at index ''
                          @ indexText (in_index toolInput) \<rparr>,
                  agent \<lparr> totalWaitTime := Some 0 \<rparr>))"
    using assms
    by (auto simp add: macroToolExecute_def executeTool_def clickElement_def inputText_def
        selectOption_def notFoundError_def)
  have step: "events k = Returned r u \<and> actionName r \<noteq> Some ''done'' \<and> k < maxSteps \<longrightarrow>
               executeLoop maxSteps events k h
                 = executeLoop maxSteps events (k + 1) (h @ [historyEntry r u])
               \<and> action_output (history_action (historyEntry r u)) = macro_output r"
    by (auto simp add: executeLoop_Returned [where events = events and step = k and r = r and u = u]
        historyEntry_def Let_def)
  have missing: "map_of (tools agent) toolName = None \<longrightarrow>
               macroToolExecute agent env inp = (Inl (Error (''Tool '' @ toolName @ '' not found.'')), agent)"
    using assms by (auto simp add: macroToolExecute_def)
  have thrown: "events k = Thrown err \<longrightarrow> executeLoop maxSteps events k h = failed err h"
    by (auto simp add: executeLoop.simps [of maxSteps events k h])
  show ?thesis
    using tool step missing thrown by blast
qed

lemma exampleAgent_fly: "map_of (tools exampleAgent) ''fly'' = None"
  by code_simp

lemma exampleController_seven: "selectorMap_get exampleController (Some 7) = None"
  by code_simp

text \<open>
  The claim C7 as stated fails for a tool name outside the registry: the failure is
  thrown, no action output exists, and the task ends with an empty history.
\<close>

theorem unknown_tool_counterexample:
  "fst (macroToolExecute exampleAgent calmEnv (callOf ''fly'' emptyInput))
     = Inl (Error ''Tool fly not found.'')
   \<and> executeLoop MAX_STEPS unknownToolCall 0 []
     = \<lparr> result_success = False, data = ''Error: Tool fly not found.'', history = [] \<rparr>"
proof -
  have m: "fst (macroToolExecute exampleAgent calmEnv (callOf ''fly'' emptyInput))
             = Inl (Error ''Tool fly not found.'')"
    using exampleAgent_fly exampleAgent_paused
    by (simp add: macroToolExecute_def calmEnv_def callOf_def)
  have e: "unknownToolCall 0 = Thrown (Error ''Tool fly not found.'')"
    by (simp add: unknownToolCall_def m)
  show ?thesis
    using m e by (simp add: executeLoop.simps [of MAX_STEPS unknownToolCall 0] failed_def)
qed

theorem unresolved_index_witness:
  "macroToolExecute exampleAgent calmEnv
       (callOf ''click_element_by_index'' (emptyInput \<lparr> in_index := Some 7 \<rparr>))
     = (Inr \<lparr> macro_input = callOf ''click_element_by_index'' (emptyInput \<lparr> in_index := Some 7 \<rparr>),
              macro_output = crossMark
                @ '' Failed to click element: Error: No interactive element found at index 7'' \<rparr>,
        exampleAgent \<lparr> totalWaitTime := Some 0 \<rparr>)
   \<and> result_success (executeLoop MAX_STEPS clickMissingThenDone 0 []) = False
   \<and> data (executeLoop MAX_STEPS clickMissingThenDone 0 []) = ''gave up''
   \<and> map (\<lambda>e. action_output (history_action e)) (history (executeLoop MAX_STEPS clickMissingThenDone 0 []))
       = [crossMark @ '' Failed to click element: Error: No interactive element found at index 7'',
          ''Task completed'']
   \<and> macroToolExecute exampleAgent calmEnv (callOf ''fly'' emptyInput)
       = (Inl (Error ''Tool fly not found.''), exampleAgent)
   \<and> executeLoop MAX_STEPS unknownToolCall 0 [] = failed (Error ''Tool fly not found.'') []"
proof -
  let ?inp = "callOf ''click_element_by_index'' (emptyInput \<lparr> in_index := Some 7 \<rparr>)"
  let ?res = "\<lparr> macro_input = ?inp,
                 macro_output = crossMark
                   @ '' Failed to click element: Error: No interactive element found at index 7'' \<rparr>"
  have env: "\<not> aborted calmEnv" "\<not> (paused exampleAgent \<and> pauseTimedOut calmEnv)"
    using exampleAgent_paused by (simp_all add: calmEnv_def)
  have act: "action ?inp = (''click_element_by_index'', emptyInput \<lparr> in_index := Some 7 \<rparr>) # []"
    by (simp add: callOf_def)
  have seven: "indexText (Some 7) = ''7''"
    by code_simp
  have ev0: "clickMissingThenDone 0 = Returned ?res noUsage \<longrightarrow> True"
    by simp
  note main = unresolved_index_reported_unknown_tool_thrown
    [where agent = exampleAgent and env = calmEnv and inp = ?inp
       and toolName = "''click_element_by_index''"
       and toolInput = "emptyInput \<lparr> in_index := Some 7 \<rparr>" and others = "[]"
       and events = clickMissingThenDone and k = 0 and r = ?res and u = noUsage
       and maxSteps = MAX_STEPS and h = "[]" and err = "Error ''x''",
     OF env act]
  have m: "macroToolExecute exampleAgent calmEnv ?inp = (Inr ?res, exampleAgent \<lparr> totalWaitTime := Some 0 \<rparr>)"
    using main exampleAgent_click exampleController_seven exampleAgent_controller seven
    by simp
  have e0: "clickMissingThenDone 0 = Returned ?res noUsage"
    by (simp add: clickMissingThenDone_def m)
  have nd: "actionName ?res \<noteq> Some ''done''"
    by (simp add: actionName_def callOf_def)
  have stepped: "executeLoop MAX_STEPS clickMissingThenDone 0 []
                   = executeLoop MAX_STEPS clickMissingThenDone 1 [historyEntry ?res noUsage]"
    using main e0 nd by (simp add: MAX_STEPS_def)
  have e1: "clickMissingThenDone 1 =
              Returned \<lparr> macro_input = callOf ''done'' (emptyInput \<lparr> in_text := Some ''gave up'' \<rparr>),
                         macro_output = ''Task completed'' \<rparr> noUsage"
    by (simp add: clickMissingThenDone_def)
  have fin: "executeLoop MAX_STEPS clickMissingThenDone 1 [historyEntry ?res noUsage]
               = \<lparr> result_success = False, data = ''gave up'',
                   history = [historyEntry ?res noUsage,
                              historyEntry \<lparr> macro_input = callOf ''done'' (emptyInput \<lparr> in_text := Some ''gave up'' \<rparr>),
                                             macro_output = ''Task completed'' \<rparr> noUsage] \<rparr>"
    by (subst executeLoop_Returned [where events = clickMissingThenDone and step = 1, OF e1])
      (simp add: actionName_def historyEntry_def callOf_def emptyInput_def MAX_STEPS_def Let_def)
  note main2 = unresolved_index_reported_unknown_tool_thrown
    [where agent = exampleAgent and env = calmEnv and inp = "callOf ''fly'' emptyInput"
       and toolName = "''fly''" and toolInput = emptyInput and others = "[]"
       and events = unknownToolCall and k = 0 and maxSteps = MAX_STEPS and h = "[]"
       and err = "Error ''Tool fly not found.''" and r = ?res and u = noUsage,
     OF env]
  have fly: "macroToolExecute exampleAgent calmEnv (callOf ''fly'' emptyInput)
       = (Inl (Error ''Tool fly not found.''), exampleAgent)"
    using main2 exampleAgent_fly by (simp add: callOf_def)
  have flyEv: "unknownToolCall 0 = Thrown (Error ''Tool fly not found.'')"
    by (simp add: unknownToolCall_def fly)
  have flyLoop: "executeLoop MAX_STEPS unknownToolCall 0 [] = failed (Error ''Tool fly not found.'') []"
    using main2 flyEv by (simp add: callOf_def)
  show ?thesis
    using m fly flyLoop unfolding stepped fin
    by (simp add: historyEntry_def Let_def)
qed

section \<open>Bare text lines and folded text\<close>


















section \<open>Duplicate attribute values on two snapshots\<close>

text \<open>
  C5 on these inputs. With the default allow-list the first occurrence \<^verbatim>\<open>title\<close> is kept
  and \<^verbatim>\<open>alt\<close> is dropped. When the caller supplies \<^verbatim>\<open>title\<close>, a name the default list
  holds as well, the name stands twice in \<open>orderedKeys\<close>, its second visit finds its own
  value in \<open>seenValues\<close>, and both attributes are dropped. A value that \<^verbatim>\<open>in\<close> finds on
  \<^verbatim>\<open>Object.prototype\<close> counts as seen from the start, so both of its attributes are
  dropped too.
\<close>

theorem duplicate_value_first_occurrence_lost:
  "flatTreeToString 100 duplicateValueTree None = Inr ''[0]<a title=Hello world>more />''
   \<and> flatTreeToString 100 duplicateValueTree (Some [''title'']) = Inr ''[0]<a >more />''
   \<and> flatTreeToString 100 prototypeValueTree None = Inr ''[0]<input  />''"
  by code_simp

section \<open>The extraction walk\<close>

lemma digitChar_inj: "a < 10 \<Longrightarrow> b < 10 \<Longrightarrow> digitChar a = digitChar b \<Longrightarrow> a = b"
proof -
  have d: "distinct ''0123456789''" by simp
  assume "a < 10" "b < 10" "digitChar a = digitChar b"
  then show "a = b"
    using nth_eq_iff_index_eq [OF d, of a b] by (simp add: digitChar_def)
qed

lemma showNat_nonempty: "showNat n \<noteq> []"
  by (subst showNat.simps) simp

lemma showNat_inj: "showNat n = showNat m \<Longrightarrow> n = m"
proof (induction n arbitrary: m rule: showNat.induct)
  case (1 n)
  show ?case
  proof (cases "n < 10")
    case True
    then have n: "showNat n = [digitChar n]" by (simp add: showNat.simps)
    show ?thesis
    proof (cases "m < 10")
      case mt: True
      then have "showNat m = [digitChar m]" by (simp add: showNat.simps)
      with n "1.prems" True mt show ?thesis using digitChar_inj by simp
    next
      case False
      then have "showNat m = showNat (m div 10) @ [digitChar (m mod 10)]"
        by (subst showNat.simps) simp
      with n "1.prems" showNat_nonempty [of "m div 10"] show ?thesis
        by (cases "showNat (m div 10)") auto
    qed
  next
    case False
    then have n: "showNat n = showNat (n div 10) @ [digitChar (n mod 10)]"
      by (subst showNat.simps) simp
    show ?thesis
    proof (cases "m < 10")
      case True
      then have "showNat m = [digitChar m]" by (simp add: showNat.simps)
      with n "1.prems" showNat_nonempty [of "n div 10"] show ?thesis
        by (cases "showNat (n div 10)") auto
    next
      case mf: False
      then have m: "showNat m = showNat (m div 10) @ [digitChar (m mod 10)]"
        by (subst showNat.simps) simp
      from n m "1.prems" have a: "showNat (n div 10) = showNat (m div 10)"
        and b: "digitChar (n mod 10) = digitChar (m mod 10)"
        by simp_all
      from "1.IH" [OF False a] have "n div 10 = m div 10" .
      moreover from b have "n mod 10 = m mod 10"
        using digitChar_inj [of "n mod 10" "m mod 10"] by simp
      ultimately show ?thesis
        by (metis div_mult_mod_eq)
    qed
  qed
qed

lemma indicesOf_append: "indicesOf (a @ b) = indicesOf a @ indicesOf b"
  by (induction a rule: indicesOf.induct) (auto split: option.splits)

lemma update_fresh: "k \<notin> fst ` set al \<Longrightarrow> AList.update k v al = al @ [(k, v)]"
  by (induction al) auto

lemma fresh_key:
  assumes "wf_walk s"
  shows "showNat (ID_current s) \<notin> fst ` set (DOM_HASH_MAP s)"
proof
  assume "showNat (ID_current s) \<in> fst ` set (DOM_HASH_MAP s)"
  then have "showNat (ID_current s) \<in> set (map fst (DOM_HASH_MAP s))" by simp
  moreover have "map fst (DOM_HASH_MAP s) = map showNat [0..<ID_current s]"
    using assms by (simp add: wf_walk_def)
  ultimately have "showNat (ID_current s) \<in> set (map showNat [0..<ID_current s])"
    by (simp only:)
  then obtain n where "n < ID_current s" "showNat (ID_current s) = showNat n" by auto
  then show False using showNat_inj by fastforce
qed

lemma store_fresh:
  assumes "wf_walk s"
  shows "AList.update (showNat (ID_current s)) v (DOM_HASH_MAP s)
           = DOM_HASH_MAP s @ [(showNat (ID_current s), v)]"
  by (rule update_fresh [OF fresh_key [OF assms]])

lemma wf_store:
  assumes "wf_walk s"
  shows "wf_walk (s \<lparr> ID_current := ID_current s + 1,
                      DOM_HASH_MAP := DOM_HASH_MAP s @ [(showNat (ID_current s), v)] \<rparr>)"
  using assms by (simp add: wf_walk_def)

lemma describeElement_indexable:
  assumes "indexable pg vx element"
    and "describeElement pg vx element h = (nodeData, element', h')"
  shows "h' = h + 1
         \<and> element' = element \<lparr> el_attributes :=
               AList.update markerAttribute (showNat h) (el_attributes element) \<rparr>
         \<and> highlightIndex nodeData = Some h \<and> isInteractive nodeData = Some True
         \<and> locator nodeData = None \<and> tagName nodeData = toLowerCase (el_tagName element)"
  using assms
  by (auto simp add: describeElement_def indexable_def Let_def split: option.splits)

lemma describeElement_not_indexable:
  assumes "\<not> indexable pg vx element"
    and "describeElement pg vx element h = (nodeData, element', h')"
  shows "h' = h \<and> element' = element
         \<and> highlightIndex nodeData = None \<and> attributes nodeData = []
         \<and> locator nodeData = None \<and> tagName nodeData = toLowerCase (el_tagName element)
         \<and> (isElementVisible element \<and> isTopElement_el pg element vx \<and> isInteractiveElement element
              \<longrightarrow> isInteractive nodeData = Some True)"
  using assms
  by (auto simp add: describeElement_def indexable_def Let_def split: option.splits if_splits)

lemma upt_split: "a \<le> b \<Longrightarrow> b \<le> c \<Longrightarrow> [a..<b] @ [b..<c] = [a..<(c::nat)]"
  by (metis le_Suc_ex upt_add_eq_append)

lemma walked_refl: "wf_walk s \<Longrightarrow> walked_from s s"
  by (simp add: walked_from_def)

lemma walked_trans:
  assumes "walked_from s s1" and "walked_from s1 s2"
  shows "walked_from s s2"
proof -
  from assms(1) obtain n1 where
    a: "highlightCounter s \<le> highlightCounter s1"
       "DOM_HASH_MAP s1 = DOM_HASH_MAP s @ n1"
       "mset (indicesOf n1) = mset [highlightCounter s..<highlightCounter s1]"
       "list_all (\<lambda>entry. storedNode (snd entry)) n1"
    by (auto simp: walked_from_def)
  from assms(2) obtain n2 where
    b: "wf_walk s2" "highlightCounter s1 \<le> highlightCounter s2"
       "DOM_HASH_MAP s2 = DOM_HASH_MAP s1 @ n2"
       "mset (indicesOf n2) = mset [highlightCounter s1..<highlightCounter s2]"
       "list_all (\<lambda>entry. storedNode (snd entry)) n2"
    by (auto simp: walked_from_def)
  have "mset (indicesOf (n1 @ n2)) = mset ([highlightCounter s..<highlightCounter s1]
                                             @ [highlightCounter s1..<highlightCounter s2])"
    using a(3) b(4) by (simp add: indicesOf_append)
  then have "mset (indicesOf (n1 @ n2)) = mset [highlightCounter s..<highlightCounter s2]"
    using upt_split [OF a(1) b(2)] by simp
  moreover have "DOM_HASH_MAP s2 = DOM_HASH_MAP s @ (n1 @ n2)"
    using a(2) b(3) by simp
  moreover have "list_all (\<lambda>entry. storedNode (snd entry)) (n1 @ n2)"
    using a(4) b(5) by simp
  ultimately show ?thesis
    using a(1) b(1,2) unfolding walked_from_def by (intro conjI exI [of _ "n1 @ n2"]) auto
qed

lemma walked_counter:
  "walked_from (s \<lparr> highlightCounter := h \<rparr>) s' \<Longrightarrow> h \<le> highlightCounter s'"
  by (simp add: walked_from_def)

lemma walked_store_text:
  assumes "wf_walk s"
  shows "walked_from s (s \<lparr> ID_current := ID_current s + 1,
                            DOM_HASH_MAP := AList.update (showNat (ID_current s))
                                              (TextDomNode t v) (DOM_HASH_MAP s) \<rparr>)"
  unfolding store_fresh [OF assms] using wf_store [OF assms] by (simp add: walked_from_def)

lemma walked_store_element:
  assumes "wf_walk s"
    and "walked_from (s \<lparr> highlightCounter := hi \<rparr>) s2"
    and "hi = highlightCounter s \<and> highlightIndex nd = None
         \<or> hi = highlightCounter s + 1 \<and> highlightIndex nd = Some (highlightCounter s)"
    and "storedNode (ElementDomNode nd)"
  shows "walked_from s (s2 \<lparr> ID_current := ID_current s2 + 1,
                             DOM_HASH_MAP := AList.update (showNat (ID_current s2))
                                               (ElementDomNode nd) (DOM_HASH_MAP s2) \<rparr>)"
proof -
  from assms(2) obtain new where
    b: "wf_walk s2" "hi \<le> highlightCounter s2"
       "DOM_HASH_MAP s2 = DOM_HASH_MAP s @ new"
       "mset (indicesOf new) = mset [hi..<highlightCounter s2]"
       "list_all (\<lambda>entry. storedNode (snd entry)) new"
    by (auto simp: walked_from_def)
  let ?k = "showNat (ID_current s2)"
  let ?s' = "s2 \<lparr> ID_current := ID_current s2 + 1,
                  DOM_HASH_MAP := AList.update ?k (ElementDomNode nd) (DOM_HASH_MAP s2) \<rparr>"
  have u: "AList.update ?k (ElementDomNode nd) (DOM_HASH_MAP s2)
             = DOM_HASH_MAP s2 @ [(?k, ElementDomNode nd)]"
    by (rule store_fresh [OF b(1)])
  have m: "DOM_HASH_MAP ?s' = DOM_HASH_MAP s @ (new @ [(?k, ElementDomNode nd)])"
    unfolding u by (simp add: b(3))
  have w: "wf_walk ?s'"
    unfolding u using wf_store [OF b(1)] by simp
  have i: "mset (indicesOf (new @ [(?k, ElementDomNode nd)]))
             = mset [highlightCounter s..<highlightCounter s2]"
  proof -
    from assms(3) show ?thesis
    proof
      assume "hi = highlightCounter s \<and> highlightIndex nd = None"
      then show ?thesis using b(4) by (simp add: indicesOf_append)
    next
      assume c: "hi = highlightCounter s + 1 \<and> highlightIndex nd = Some (highlightCounter s)"
      then have "highlightCounter s < highlightCounter s2" using b(2) by simp
      then have "[highlightCounter s..<highlightCounter s2]
                   = highlightCounter s # [highlightCounter s + 1..<highlightCounter s2]"
        by (simp add: upt_conv_Cons)
      then show ?thesis using b(4) c by (simp add: indicesOf_append)
    qed
  qed
  have l: "list_all (\<lambda>entry. storedNode (snd entry)) (new @ [(?k, ElementDomNode nd)])"
    using b(5) assms(4) by simp
  have c: "highlightCounter s \<le> highlightCounter ?s'"
    using assms(3) b(2) by auto
  show ?thesis
    unfolding walked_from_def using w c m i l
    by (intro conjI exI [of _ "new @ [(?k, ElementDomNode nd)]"]) auto
qed

lemma describeElement_step:
  assumes "describeElement pg vx element h = (nodeData, element', h')"
  shows "(h' = h \<and> highlightIndex nodeData = None \<and> element' = element
          \<or> h' = h + 1 \<and> highlightIndex nodeData = Some h
             \<and> element' = element \<lparr> el_attributes :=
                   AList.update markerAttribute (showNat h) (el_attributes element) \<rparr>)
         \<and> storedNode (ElementDomNode (nodeData \<lparr> children := cs \<rparr>))"
proof (cases "indexable pg vx element")
  case True
  from describeElement_indexable [OF True assms] show ?thesis by simp
next
  case False
  from describeElement_not_indexable [OF False assms] show ?thesis by simp
qed

lemma walk_grows:
  "buildDomTree pg vx node s = (r, node', s') \<Longrightarrow> wf_walk s \<Longrightarrow> walked_from s s'"
  "processChildNodes pg vx nodes s = (ids, nodes', s') \<Longrightarrow> wf_walk s \<Longrightarrow> walked_from s s'"
proof (induction pg vx node s and pg vx nodes s
       arbitrary: r node' s' and ids nodes' s' rule: buildDomTree_processChildNodes.induct)
  case (1 pg vx t s)
  then show ?case by (simp add: walked_refl)
next
  case (2 pg vx s)
  then show ?case by (simp add: walked_refl)
next
  case (3 pg vx element kids s)
  show ?case
  proof (cases "toLowerCase (el_tagName element) \<in> set skipTags")
    case True
    with "3.prems" show ?thesis by (simp add: walked_refl)
  next
    case False
    obtain nd e' hi where d: "describeElement pg vx element (highlightCounter s) = (nd, e', hi)"
      by (cases "describeElement pg vx element (highlightCounter s)") auto
    obtain cids kids' s2 where
      c: "processChildNodes pg vx kids (s \<lparr> highlightCounter := hi \<rparr>) = (cids, kids', s2)"
      by (cases "processChildNodes pg vx kids (s \<lparr> highlightCounter := hi \<rparr>)") auto
    have s': "s' = s2 \<lparr> ID_current := ID_current s2 + 1,
                         DOM_HASH_MAP := AList.update (showNat (ID_current s2))
                            (ElementDomNode (nd \<lparr> children := cids \<rparr>)) (DOM_HASH_MAP s2) \<rparr>"
      using "3.prems"(1) False d c by (simp add: Let_def)
    have w1: "wf_walk (s \<lparr> highlightCounter := hi \<rparr>)"
      using "3.prems"(2) by (simp add: wf_walk_def)
    have k: "walked_from (s \<lparr> highlightCounter := hi \<rparr>) s2"
      by (rule "3.IH" [OF False d [symmetric] refl c w1])
    have st: "(hi = highlightCounter s \<and> highlightIndex (nd \<lparr> children := cids \<rparr>) = None
               \<or> hi = highlightCounter s + 1
                  \<and> highlightIndex (nd \<lparr> children := cids \<rparr>) = Some (highlightCounter s))
              \<and> storedNode (ElementDomNode (nd \<lparr> children := cids \<rparr>))"
      using describeElement_step [OF d, of cids] by auto
    show ?thesis
      unfolding s' using walked_store_element [OF "3.prems"(2) k] st by blast
  qed
next
  case (4 pg vx s)
  then show ?case by (simp add: walked_refl)
next
  case (5 pg vx t rest s)
  show ?case
  proof (cases "trim t \<noteq> []")
    case True
    let ?s1 = "s \<lparr> ID_current := ID_current s + 1,
                    DOM_HASH_MAP := AList.update (showNat (ID_current s))
                                      (TextDomNode (trim t) True) (DOM_HASH_MAP s) \<rparr>"
    obtain ids2 rest' s2 where c: "processChildNodes pg vx rest ?s1 = (ids2, rest', s2)"
      by (cases "processChildNodes pg vx rest ?s1") auto
    have s': "s' = s2" using "5.prems"(1) True c by (simp add: Let_def)
    have a: "walked_from s ?s1" by (rule walked_store_text [OF "5.prems"(2)])
    then have w1: "wf_walk ?s1" by (simp add: walked_from_def)
    have "walked_from ?s1 s2"
      by (rule "5.IH"(1) [OF refl True refl refl c w1])
    with a show ?thesis unfolding s' by (rule walked_trans)
  next
    case False
    obtain ids2 rest' s2 where c: "processChildNodes pg vx rest s = (ids2, rest', s2)"
      by (cases "processChildNodes pg vx rest s") auto
    have s': "s' = s2" using "5.prems"(1) False c by (simp add: Let_def)
    show ?thesis unfolding s' by (rule "5.IH"(2) [OF refl False c "5.prems"(2)])
  qed
next
  case (6 pg vx rest s)
  obtain ids2 rest' s2 where c: "processChildNodes pg vx rest s = (ids2, rest', s2)"
    by (cases "processChildNodes pg vx rest s") auto
  have s': "s' = s2" using "6.prems"(1) c by simp
  show ?case unfolding s' by (rule "6.IH" [OF c "6.prems"(2)])
next
  case (7 pg vx element kids rest s)
  obtain cid child' s1 where b: "buildDomTree pg vx (ElementNode element kids) s = (cid, child', s1)"
    by (cases "buildDomTree pg vx (ElementNode element kids) s") auto
  obtain ids2 rest' s2 where c: "processChildNodes pg vx rest s1 = (ids2, rest', s2)"
    by (cases "processChildNodes pg vx rest s1") auto
  have s': "s' = s2" using "7.prems"(1) b c by simp
  have a: "walked_from s s1" by (rule "7.IH"(1) [OF b "7.prems"(2)])
  then have w1: "wf_walk s1" by (simp add: walked_from_def)
  have "walked_from s1 s2" by (rule "7.IH"(2) [OF b [symmetric] refl c w1])
  with a show ?case unfolding s' by (rule walked_trans)
qed

lemma walk_marks:
  "buildDomTree pg vx node s = (r, node', s') \<Longrightarrow> wf_walk s \<Longrightarrow> markersOf node = [] \<Longrightarrow>
     markersOf node' = map showNat [highlightCounter s..<highlightCounter s']"
  "processChildNodes pg vx nodes s = (ids, nodes', s') \<Longrightarrow> wf_walk s \<Longrightarrow>
     concat (map markersOf nodes) = [] \<Longrightarrow>
     concat (map markersOf nodes') = map showNat [highlightCounter s..<highlightCounter s']"
proof (induction pg vx node s and pg vx nodes s
       arbitrary: r node' s' and ids nodes' s' rule: buildDomTree_processChildNodes.induct)
  case (1 pg vx t s)
  then show ?case by auto
next
  case (2 pg vx s)
  then show ?case by auto
next
  case (3 pg vx element kids s)
  show ?case
  proof (cases "toLowerCase (el_tagName element) \<in> set skipTags")
    case True
    with "3.prems" show ?thesis by auto
  next
    case False
    obtain nd e' hi where d: "describeElement pg vx element (highlightCounter s) = (nd, e', hi)"
      by (cases "describeElement pg vx element (highlightCounter s)") auto
    obtain cids kids' s2 where
      c: "processChildNodes pg vx kids (s \<lparr> highlightCounter := hi \<rparr>) = (cids, kids', s2)"
      by (cases "processChildNodes pg vx kids (s \<lparr> highlightCounter := hi \<rparr>)") auto
    have n': "node' = ElementNode e' kids'" and hs: "highlightCounter s' = highlightCounter s2"
      using "3.prems"(1) False d c by (auto simp add: Let_def)
    have w1: "wf_walk (s \<lparr> highlightCounter := hi \<rparr>)"
      using "3.prems"(2) by (simp add: wf_walk_def)
    have um: "map_of (el_attributes element) markerAttribute = None"
      and uk: "concat (map markersOf kids) = []"
      using "3.prems"(3) by (auto split: option.splits)
    have km: "concat (map markersOf kids') = map showNat [hi..<highlightCounter s2]"
      using "3.IH" [OF False d [symmetric] refl c w1 uk] by simp
    have le: "hi \<le> highlightCounter s2"
      using walk_grows(2) [OF c w1] by (simp add: walked_from_def)
    from describeElement_step [OF d, of "[]"]
    have "hi = highlightCounter s \<and> e' = element
          \<or> hi = highlightCounter s + 1
             \<and> e' = element \<lparr> el_attributes :=
                   AList.update markerAttribute (showNat (highlightCounter s)) (el_attributes element) \<rparr>"
      by auto
    then show ?thesis
    proof
      assume "hi = highlightCounter s \<and> e' = element"
      then show ?thesis using n' hs km um by simp
    next
      assume a: "hi = highlightCounter s + 1
             \<and> e' = element \<lparr> el_attributes :=
                   AList.update markerAttribute (showNat (highlightCounter s)) (el_attributes element) \<rparr>"
      then have "highlightCounter s < highlightCounter s2" using le by simp
      then have "[highlightCounter s..<highlightCounter s2]
                   = highlightCounter s # [highlightCounter s + 1..<highlightCounter s2]"
        by (simp add: upt_conv_Cons)
      then show ?thesis using n' hs km a by (simp add: update_conv')
    qed
  qed
next
  case (4 pg vx s)
  then show ?case by auto
next
  case (5 pg vx t rest s)
  show ?case
  proof (cases "trim t \<noteq> []")
    case True
    let ?s1 = "s \<lparr> ID_current := ID_current s + 1,
                    DOM_HASH_MAP := AList.update (showNat (ID_current s))
                                      (TextDomNode (trim t) True) (DOM_HASH_MAP s) \<rparr>"
    obtain ids2 rest' s2 where c: "processChildNodes pg vx rest ?s1 = (ids2, rest', s2)"
      by (cases "processChildNodes pg vx rest ?s1") auto
    have s': "s' = s2" and n': "nodes' = TextNode t # rest'"
      using "5.prems"(1) True c by (auto simp add: Let_def)
    have w1: "wf_walk ?s1"
      using walked_store_text [OF "5.prems"(2)] by (simp add: walked_from_def)
    have u: "concat (map markersOf rest) = []" using "5.prems"(3) by simp
    show ?thesis
      using "5.IH"(1) [OF refl True refl refl c w1 u] s' n' by simp
  next
    case False
    obtain ids2 rest' s2 where c: "processChildNodes pg vx rest s = (ids2, rest', s2)"
      by (cases "processChildNodes pg vx rest s") auto
    have s': "s' = s2" and n': "nodes' = TextNode t # rest'"
      using "5.prems"(1) False c by (auto simp add: Let_def)
    have u: "concat (map markersOf rest) = []" using "5.prems"(3) by simp
    show ?thesis
      using "5.IH"(2) [OF refl False c "5.prems"(2) u] s' n' by simp
  qed
next
  case (6 pg vx rest s)
  obtain ids2 rest' s2 where c: "processChildNodes pg vx rest s = (ids2, rest', s2)"
    by (cases "processChildNodes pg vx rest s") auto
  have s': "s' = s2" and n': "nodes' = OtherNode # rest'"
    using "6.prems"(1) c by auto
  have u: "concat (map markersOf rest) = []" using "6.prems"(3) by simp
  show ?case using "6.IH" [OF c "6.prems"(2) u] s' n' by simp
next
  case (7 pg vx element kids rest s)
  obtain cid child' s1 where b: "buildDomTree pg vx (ElementNode element kids) s = (cid, child', s1)"
    by (cases "buildDomTree pg vx (ElementNode element kids) s") auto
  obtain ids2 rest' s2 where c: "processChildNodes pg vx rest s1 = (ids2, rest', s2)"
    by (cases "processChildNodes pg vx rest s1") auto
  have s': "s' = s2" and n': "nodes' = child' # rest'"
    using "7.prems"(1) b c by auto
  have g1: "walked_from s s1" by (rule walk_grows(1) [OF b "7.prems"(2)])
  then have w1: "wf_walk s1" and l1: "highlightCounter s \<le> highlightCounter s1"
    by (simp_all add: walked_from_def)
  have l2: "highlightCounter s1 \<le> highlightCounter s2"
    using walk_grows(2) [OF c w1] by (simp add: walked_from_def)
  have u1: "markersOf (ElementNode element kids) = []"
    and u2: "concat (map markersOf rest) = []"
    using "7.prems"(3) by simp_all
  have m1: "markersOf child' = map showNat [highlightCounter s..<highlightCounter s1]"
    by (rule "7.IH"(1) [OF b "7.prems"(2) u1])
  have m2: "concat (map markersOf rest') = map showNat [highlightCounter s1..<highlightCounter s2]"
    by (rule "7.IH"(2) [OF b [symmetric] refl c w1 u2])
  have "markersOf child' @ concat (map markersOf rest')
          = map showNat ([highlightCounter s..<highlightCounter s1]
                         @ [highlightCounter s1..<highlightCounter s2])"
    unfolding m1 m2 by simp
  then show ?case
    unfolding s' n' using upt_split [OF l1 l2] by simp
qed

lemma children_nth:
  "processChildNodes pg vx nodes s = (ids, nodes', s') \<Longrightarrow> wf_walk s \<Longrightarrow> i < length nodes \<Longrightarrow>
   nodes ! i = ElementNode ei ki \<Longrightarrow>
   \<exists>si ri ni si'. buildDomTree pg vx (ElementNode ei ki) si = (ri, ni, si') \<and> wf_walk si
                   \<and> walked_from si' s' \<and> i < length nodes' \<and> nodes' ! i = ni"
proof (induction nodes arbitrary: s i ids nodes' s')
  case Nil
  then show ?case by simp
next
  case (Cons n rest)
  show ?case
  proof (cases n)
    case (TextNode t)
    then obtain j where j: "i = Suc j" using Cons.prems(3,4) by (cases i) auto
    show ?thesis
    proof (cases "trim t \<noteq> []")
      case True
      let ?s1 = "s \<lparr> ID_current := ID_current s + 1,
                      DOM_HASH_MAP := AList.update (showNat (ID_current s))
                                        (TextDomNode (trim t) True) (DOM_HASH_MAP s) \<rparr>"
      obtain ids2 rest' s2 where c: "processChildNodes pg vx rest ?s1 = (ids2, rest', s2)"
        by (cases "processChildNodes pg vx rest ?s1") auto
      have s': "s' = s2" and n': "nodes' = TextNode t # rest'"
        using Cons.prems(1) TextNode True c by (auto simp add: Let_def)
      have w1: "wf_walk ?s1"
        using walked_store_text [OF Cons.prems(2)] by (simp add: walked_from_def)
      from Cons.IH [OF c w1, of j] Cons.prems(3,4) j
      show ?thesis unfolding s' n' by auto
    next
      case False
      obtain ids2 rest' s2 where c: "processChildNodes pg vx rest s = (ids2, rest', s2)"
        by (cases "processChildNodes pg vx rest s") auto
      have s': "s' = s2" and n': "nodes' = TextNode t # rest'"
        using Cons.prems(1) TextNode False c by (auto simp add: Let_def)
      from Cons.IH [OF c Cons.prems(2), of j] Cons.prems(3,4) j
      show ?thesis unfolding s' n' by auto
    qed
  next
    case OtherNode
    then obtain j where j: "i = Suc j" using Cons.prems(3,4) by (cases i) auto
    obtain ids2 rest' s2 where c: "processChildNodes pg vx rest s = (ids2, rest', s2)"
      by (cases "processChildNodes pg vx rest s") auto
    have s': "s' = s2" and n': "nodes' = OtherNode # rest'"
      using Cons.prems(1) OtherNode c by auto
    from Cons.IH [OF c Cons.prems(2), of j] Cons.prems(3,4) j
    show ?thesis unfolding s' n' by auto
  next
    case (ElementNode element kids)
    obtain cid child' s1 where b: "buildDomTree pg vx (ElementNode element kids) s = (cid, child', s1)"
      by (cases "buildDomTree pg vx (ElementNode element kids) s") auto
    obtain ids2 rest' s2 where c: "processChildNodes pg vx rest s1 = (ids2, rest', s2)"
      by (cases "processChildNodes pg vx rest s1") auto
    have s': "s' = s2" and n': "nodes' = child' # rest'"
      using Cons.prems(1) ElementNode b c by auto
    have w1: "wf_walk s1"
      using walk_grows(1) [OF b Cons.prems(2)] by (simp add: walked_from_def)
    show ?thesis
    proof (cases i)
      case 0
      then have "ElementNode ei ki = ElementNode element kids"
        using Cons.prems(4) ElementNode by simp
      then show ?thesis
        unfolding s' n' using b Cons.prems(2) walk_grows(2) [OF c w1] 0 by auto
    next
      case (Suc j)
      from Cons.IH [OF c w1, of j] Cons.prems(3,4) Suc
      show ?thesis unfolding s' n' by auto
    qed
  qed
qed

lemma walked_lookup:
  assumes "walked_from s s'" and "map_of (DOM_HASH_MAP s) k = Some v"
  shows "map_of (DOM_HASH_MAP s') k = Some v"
  using assms by (auto simp add: walked_from_def)

lemma walk_describes:
  "buildDomTree pg vx node s = (r, node', s') \<Longrightarrow> wf_walk s \<Longrightarrow> visits node path \<Longrightarrow>
   nodeAt node path = Some (ElementNode element kids) \<Longrightarrow>
   \<exists>k h nd e' hi cids kids'.
      describeElement pg vx element h = (nd, e', hi)
      \<and> map_of (DOM_HASH_MAP s') k = Some (ElementDomNode (nd \<lparr> children := cids \<rparr>))
      \<and> nodeAt node' path = Some (ElementNode e' kids')"
proof (induction path arbitrary: node s r node' s')
  case Nil
  then have node: "node = ElementNode element kids"
    and ns: "toLowerCase (el_tagName element) \<notin> set skipTags"
    by auto
  obtain nd e' hi where d: "describeElement pg vx element (highlightCounter s) = (nd, e', hi)"
    by (cases "describeElement pg vx element (highlightCounter s)") auto
  obtain cids kids' s2 where
    c: "processChildNodes pg vx kids (s \<lparr> highlightCounter := hi \<rparr>) = (cids, kids', s2)"
    by (cases "processChildNodes pg vx kids (s \<lparr> highlightCounter := hi \<rparr>)") auto
  have "node' = ElementNode e' kids'"
    and "map_of (DOM_HASH_MAP s') (showNat (ID_current s2))
           = Some (ElementDomNode (nd \<lparr> children := cids \<rparr>))"
    using Nil.prems(1) node ns d c by (auto simp add: Let_def update_conv')
  with d show ?case by auto
next
  case (Cons i path)
  from Cons.prems(3) obtain e0 kids0 where node: "node = ElementNode e0 kids0"
    by (cases node) auto
  with Cons.prems(3,4) have ns: "toLowerCase (el_tagName e0) \<notin> set skipTags"
    and i: "i < length kids0" and v: "visits (kids0 ! i) path"
    and at: "nodeAt (kids0 ! i) path = Some (ElementNode element kids)"
    by auto
  from v obtain ei ki where ch: "kids0 ! i = ElementNode ei ki"
    by (cases "kids0 ! i") auto
  obtain nd0 e0' hi where d: "describeElement pg vx e0 (highlightCounter s) = (nd0, e0', hi)"
    by (cases "describeElement pg vx e0 (highlightCounter s)") auto
  obtain cids0 kids0' s2 where
    c: "processChildNodes pg vx kids0 (s \<lparr> highlightCounter := hi \<rparr>) = (cids0, kids0', s2)"
    by (cases "processChildNodes pg vx kids0 (s \<lparr> highlightCounter := hi \<rparr>)") auto
  have n': "node' = ElementNode e0' kids0'"
    and s': "s' = s2 \<lparr> ID_current := ID_current s2 + 1,
                         DOM_HASH_MAP := AList.update (showNat (ID_current s2))
                            (ElementDomNode (nd0 \<lparr> children := cids0 \<rparr>)) (DOM_HASH_MAP s2) \<rparr>"
    using Cons.prems(1) node ns d c by (auto simp add: Let_def)
  have w1: "wf_walk (s \<lparr> highlightCounter := hi \<rparr>)"
    using Cons.prems(2) by (simp add: wf_walk_def)
  from children_nth [OF c w1 i ch] obtain si ri ni si' where
    b: "buildDomTree pg vx (ElementNode ei ki) si = (ri, ni, si')" and wi: "wf_walk si"
    and g: "walked_from si' s2" and i': "i < length kids0'" and ni: "kids0' ! i = ni"
    by blast
  from Cons.IH [OF b wi] v at ch obtain k h nd e' hi' cids kids' where
    de: "describeElement pg vx element h = (nd, e', hi')"
    and lk: "map_of (DOM_HASH_MAP si') k = Some (ElementDomNode (nd \<lparr> children := cids \<rparr>))"
    and na: "nodeAt ni path = Some (ElementNode e' kids')"
    by auto
  have w2: "wf_walk s2" using g by (simp add: walked_from_def)
  have l2: "map_of (DOM_HASH_MAP s2) k = Some (ElementDomNode (nd \<lparr> children := cids \<rparr>))"
    by (rule walked_lookup [OF g lk])
  have "map_of (DOM_HASH_MAP s') k = Some (ElementDomNode (nd \<lparr> children := cids \<rparr>))"
    unfolding s' using l2 by (simp add: store_fresh [OF w2])
  moreover have "nodeAt node' (i # path) = Some (ElementNode e' kids')"
    unfolding n' using i' ni na by simp
  ultimately show ?case using de by blast
qed

lemma markersOf_clearMarks: "markersOf (clearMarks node) = []"
proof (induction node)
  case (TextNode t)
  show ?case by simp
next
  case (ElementNode element kids)
  then have "\<forall>kid \<in> set kids. markersOf (clearMarks kid) = []" by simp
  then show ?case by (simp add: delete_conv')
next
  case OtherNode
  show ?case by simp
qed

lemma indicesOf_attachLocator:
  "indicesOf (map (\<lambda>(nodeId, nodeData). (nodeId, attachLocator nodeData)) m) = indicesOf m"
  by (induction m rule: indicesOf.induct) (auto simp add: attachLocator_def split: option.splits)

lemma matchesLocator_marker:
  "matchesLocator (Locator (markerSelector i))
     = (\<lambda>element. map_of (el_attributes element) markerAttribute = Some (showNat i))"
  by (rule ext) (auto simp add: matchesLocator_def markerSelector_def split: option.splits)

lemma resolve_count_nodes:
  assumes "\<forall>kid \<in> set kids.
             length (filter (\<lambda>e. map_of (el_attributes e) markerAttribute = Some m) (elementsOf kid))
               = count_list (markersOf kid) m"
  shows "length (filter (\<lambda>e. map_of (el_attributes e) markerAttribute = Some m)
                   (concat (map elementsOf kids)))
           = count_list (concat (map markersOf kids)) m"
  using assms by (induction kids) auto

lemma resolve_count:
  "length (filter (\<lambda>e. map_of (el_attributes e) markerAttribute = Some m) (elementsOf node))
     = count_list (markersOf node) m"
proof (induction node)
  case (TextNode t)
  show ?case by simp
next
  case (ElementNode element kids)
  then have "\<forall>kid \<in> set kids.
             length (filter (\<lambda>e. map_of (el_attributes e) markerAttribute = Some m) (elementsOf kid))
               = count_list (markersOf kid) m"
    by simp
  from resolve_count_nodes [OF this] show ?case
    by (auto split: option.splits)
next
  case OtherNode
  show ?case by simp
qed

lemma resolveLocator_count:
  "length (resolveLocator pg (Locator (markerSelector i)))
     = count_list (markersOf (body pg)) (showNat i)"
  by (simp add: resolveLocator_def matchesLocator_marker resolve_count)

lemma count_list_showNat: "count_list (map showNat xs) (showNat i) = count_list xs i"
  by (induction xs) (auto dest: showNat_inj)

lemma count_list_upt: "i < n \<Longrightarrow> count_list [0..<n] i = 1"
  by (induction n) (auto simp add: less_Suc_eq count_list_0_iff)

lemma update_entry:
  "(a, b) \<in> set (AList.update k v al) \<Longrightarrow> (a, b) = (k, v) \<or> (a, b) \<in> set al"
  by (induction al) (auto split: if_splits)

lemma selectorMap_entries_fold:
  assumes "\<forall>(i, d) \<in> set acc. highlightIndex d = Some i"
  shows "\<forall>(i, d) \<in> set (fold (\<lambda>(key, node) selectorMap.
             (case node of
                TextDomNode t v \<Rightarrow> selectorMap
              | ElementDomNode d \<Rightarrow>
                  (case highlightIndex d of
                     None \<Rightarrow> selectorMap
                   | Some i \<Rightarrow> if isInteractive d = Some True
                               then AList.update i d selectorMap else selectorMap))) m acc).
           highlightIndex d = Some i"
  using assms
proof (induction m arbitrary: acc)
  case Nil
  then show ?case by simp
next
  case (Cons entry m)
  show ?case
    unfolding fold_simps
    by (rule Cons.IH)
      (use Cons.prems in \<open>auto split: prod.splits dom_node_flat.splits option.splits
         dest!: update_entry\<close>)
qed

lemma selectorMap_admits_indexed:
  "map_of (getSelectorMap tree) i = Some d \<Longrightarrow> highlightIndex d = Some i"
proof -
  assume "map_of (getSelectorMap tree) i = Some d"
  then have "(i, d) \<in> set (getSelectorMap tree)" by (rule map_of_SomeD)
  moreover have "\<forall>(i, d) \<in> set (getSelectorMap tree). highlightIndex d = Some i"
    unfolding getSelectorMap_def by (rule selectorMap_entries_fold) simp
  ultimately show ?thesis by auto
qed

lemma getFlatTree_walk:
  assumes "getFlatTree pg cfg = (tree, pg')"
  obtains root body' s where
    "buildDomTree pg (case viewportExpansion cfg of None \<Rightarrow> VIEWPORT_EXPANSION | Some v \<Rightarrow> v)
       (clearMarks (body pg)) \<lparr> ID_current = 0, DOM_HASH_MAP = [], highlightCounter = 0 \<rparr>
       = (root, body', s)"
    and "nodeMap tree = map (\<lambda>(nodeId, nodeData). (nodeId, attachLocator nodeData)) (DOM_HASH_MAP s)"
    and "pg' = pg \<lparr> body := body' \<rparr>"
proof -
  obtain root body' s where
    b: "buildDomTree pg (case viewportExpansion cfg of None \<Rightarrow> VIEWPORT_EXPANSION | Some v \<Rightarrow> v)
          (clearMarks (body pg)) \<lparr> ID_current = 0, DOM_HASH_MAP = [], highlightCounter = 0 \<rparr>
          = (root, body', s)"
    by (cases "buildDomTree pg (case viewportExpansion cfg of None \<Rightarrow> VIEWPORT_EXPANSION | Some v \<Rightarrow> v)
          (clearMarks (body pg)) \<lparr> ID_current = 0, DOM_HASH_MAP = [], highlightCounter = 0 \<rparr>") auto
  from assms b
  have "nodeMap tree = map (\<lambda>(nodeId, nodeData). (nodeId, attachLocator nodeData)) (DOM_HASH_MAP s)"
    and "pg' = pg \<lparr> body := body' \<rparr>"
    by (auto simp add: getFlatTree_def Let_def)
  with b show ?thesis by (rule that)
qed

lemma wf_walk_start: "wf_walk \<lparr> ID_current = 0, DOM_HASH_MAP = [], highlightCounter = 0 \<rparr>"
  by (simp add: wf_walk_def)

section \<open>Indices, markers and handles of a snapshot\<close>

text \<open>
  C3. After one extraction pass with \<open>N\<close> indexed nodes: the highlight indices in the
  node table are the numbers \<open>0, \<dots>, N - 1\<close>, each once; the marker attributes on the
  page, read in document order, are \<open>0, 1, \<dots>, N - 1\<close>; and every node of the table that
  carries an index \<open>i\<close> is interactive and holds the locator built from
  \<^verbatim>\<open>[data-pw-agent-index="i"]\<close>, which resolves to exactly one element of the page.
\<close>

theorem indices_contiguous_with_handles:
  assumes "getFlatTree pg cfg = (tree, pg')"
  shows "mset (indicesOf (nodeMap tree)) = mset [0..<length (indicesOf (nodeMap tree))]
         \<and> markersOf (body pg') = map showNat [0..<length (indicesOf (nodeMap tree))]
         \<and> (\<forall>entry \<in> set (nodeMap tree). \<forall>d i.
               snd entry = ElementDomNode d \<and> highlightIndex d = Some i \<longrightarrow>
                 i < length (indicesOf (nodeMap tree))
                 \<and> isInteractive d = Some True
                 \<and> locator d = Some (Locator (markerSelector i))
                 \<and> length (resolveLocator pg' (Locator (markerSelector i))) = 1)"
proof -
  let ?s0 = "\<lparr> ID_current = 0, DOM_HASH_MAP = [], highlightCounter = 0 \<rparr>"
  from assms obtain root body' s vx where
    b: "buildDomTree pg vx (clearMarks (body pg)) ?s0 = (root, body', s)"
    and m: "nodeMap tree = map (\<lambda>(nodeId, nodeData). (nodeId, attachLocator nodeData)) (DOM_HASH_MAP s)"
    and p: "pg' = pg \<lparr> body := body' \<rparr>"
    by (rule getFlatTree_walk)
  let ?n = "highlightCounter s"
  have g: "walked_from ?s0 s" by (rule walk_grows(1) [OF b wf_walk_start])
  then have i0: "mset (indicesOf (DOM_HASH_MAP s)) = mset [0..<?n]"
    and st: "list_all (\<lambda>entry. storedNode (snd entry)) (DOM_HASH_MAP s)"
    by (auto simp add: walked_from_def)
  have ix: "mset (indicesOf (nodeMap tree)) = mset [0..<?n]"
    unfolding m indicesOf_attachLocator by (rule i0)
  then have "size (mset (indicesOf (nodeMap tree))) = size (mset [0..<?n])" by simp
  then have len: "length (indicesOf (nodeMap tree)) = ?n" by simp
  have mk: "markersOf (body pg') = map showNat [0..<?n]"
    using walk_marks(1) [OF b wf_walk_start markersOf_clearMarks] p by simp
  have nodes: "\<forall>entry \<in> set (nodeMap tree). \<forall>d i.
               snd entry = ElementDomNode d \<and> highlightIndex d = Some i \<longrightarrow>
                 i < ?n \<and> isInteractive d = Some True
                 \<and> locator d = Some (Locator (markerSelector i))
                 \<and> length (resolveLocator pg' (Locator (markerSelector i))) = 1"
  proof (intro ballI allI impI)
    fix entry d i
    assume e: "entry \<in> set (nodeMap tree)"
      and d: "snd entry = ElementDomNode d \<and> highlightIndex d = Some i"
    from e m obtain k n0 where k: "(k, n0) \<in> set (DOM_HASH_MAP s)" and en: "entry = (k, attachLocator n0)"
      by auto
    from st k have sn: "storedNode n0" by (auto simp add: list_all_iff)
    from d en obtain d0 where n0: "n0 = ElementDomNode d0"
      by (cases n0) (auto simp add: attachLocator_def)
    from d en n0 have hi: "highlightIndex d0 = Some i"
      by (auto simp add: attachLocator_def split: option.splits if_splits)
    with sn n0 have it: "isInteractive d0 = Some True" by simp
    from d en n0 hi it have dd: "d = d0 \<lparr> isInteractive := Some True, isNew := None,
                                       locator := Some (Locator (markerSelector i)) \<rparr>"
      by (simp add: attachLocator_def)
    have "i \<in> set (indicesOf (nodeMap tree))"
    proof -
      have "\<And>mm. (k, ElementDomNode d) \<in> set mm \<Longrightarrow> highlightIndex d = Some i \<Longrightarrow> i \<in> set (indicesOf mm)"
      proof -
        fix mm :: "(string \<times> dom_node_flat) list"
        show "(k, ElementDomNode d) \<in> set mm \<Longrightarrow> highlightIndex d = Some i \<Longrightarrow> i \<in> set (indicesOf mm)"
          by (induction mm rule: indicesOf.induct) (auto split: option.splits)
      qed
      then show ?thesis using e d en by (cases entry) auto
    qed
    then have "i \<in># mset (indicesOf (nodeMap tree))" by simp
    then have lt: "i < ?n" unfolding ix by simp
    have "length (resolveLocator pg' (Locator (markerSelector i))) = 1"
      unfolding resolveLocator_count mk count_list_showNat by (rule count_list_upt [OF lt])
    with lt dd show "i < ?n \<and> isInteractive d = Some True
                 \<and> locator d = Some (Locator (markerSelector i))
                 \<and> length (resolveLocator pg' (Locator (markerSelector i))) = 1"
      by simp
  qed
  show ?thesis
    unfolding len using ix mk nodes by blast
qed

lemma examplePage_flat:
  "getFlatTree examplePage defaultConfig
     = (the (flatTree exampleController), fst (snd (updateTree 100 1000 examplePage (newController defaultConfig))))"
  by code_simp

lemma examplePage_indices:
  "indicesOf (nodeMap (the (flatTree exampleController))) = [0, 1]"
  by code_simp

lemma examplePage_handles:
  "map (\<lambda>entry. case snd entry of
                  TextDomNode t v \<Rightarrow> None
                | ElementDomNode d \<Rightarrow> map_option (\<lambda>i. (i, locator d)) (highlightIndex d))
     (nodeMap (the (flatTree exampleController)))
   = [None, None, None, Some (0, Some (Locator (markerSelector 0))),
      Some (1, Some (Locator (markerSelector 1))), None]"
  by code_simp

lemma examplePage_resolve:
  "map (\<lambda>element. toLowerCase (el_tagName element))
     (resolveLocator (fst (snd (updateTree 100 1000 examplePage (newController defaultConfig))))
        (Locator (markerSelector 1)))
   = [''input'']"
  by code_simp

lemma showNat_01: "showNat 0 = ''0''" "showNat (Suc 0) = ''1''"
  by code_simp+

theorem indices_contiguous_witness:
  "indicesOf (nodeMap (the (flatTree exampleController))) = [0, 1]
   \<and> markersOf (body (fst (snd (updateTree 100 1000 examplePage (newController defaultConfig)))))
       = [''0'', ''1'']
   \<and> map (\<lambda>entry. case snd entry of
                  TextDomNode t v \<Rightarrow> None
                | ElementDomNode d \<Rightarrow> map_option (\<lambda>i. (i, locator d)) (highlightIndex d))
        (nodeMap (the (flatTree exampleController)))
       = [None, None, None, Some (0, Some (Locator (markerSelector 0))),
          Some (1, Some (Locator (markerSelector 1))), None]
   \<and> map (\<lambda>element. toLowerCase (el_tagName element))
        (resolveLocator (fst (snd (updateTree 100 1000 examplePage (newController defaultConfig))))
           (Locator (markerSelector 1)))
       = [''input'']"
proof -
  have "markersOf (body (fst (snd (updateTree 100 1000 examplePage (newController defaultConfig)))))
          = map showNat [0..<length (indicesOf (nodeMap (the (flatTree exampleController))))]"
    using indices_contiguous_with_handles [OF examplePage_flat] by blast
  then have "markersOf (body (fst (snd (updateTree 100 1000 examplePage (newController defaultConfig)))))
          = [''0'', ''1'']"
    unfolding examplePage_indices by (simp add: showNat_01)
  then show ?thesis
    using examplePage_indices examplePage_handles examplePage_resolve by simp
qed

section \<open>Interactive elements outside the viewport\<close>

lemma visits_clearMarks: "visits (clearMarks node) path = visits node path"
proof (induction path arbitrary: node)
  case Nil
  show ?case by (cases node) auto
next
  case (Cons i path)
  show ?case by (cases node) (auto simp add: Cons.IH)
qed

lemma nodeAt_clearMarks: "nodeAt (clearMarks node) path = map_option clearMarks (nodeAt node path)"
proof (induction path arbitrary: node)
  case Nil
  show ?case by simp
next
  case (Cons i path)
  show ?case by (cases node) (auto simp add: Cons.IH)
qed

lemma cleaned_element_facts:
  "isElementVisible (element \<lparr> el_attributes := AList.delete markerAttribute (el_attributes element) \<rparr>)
     = isElementVisible element"
  "isTopElement_el pg (element \<lparr> el_attributes := AList.delete markerAttribute (el_attributes element) \<rparr>) vx
     = isTopElement_el pg element vx"
  "isInViewport_el pg (element \<lparr> el_attributes := AList.delete markerAttribute (el_attributes element) \<rparr>) vx
     = isInViewport_el pg element vx"
  "isInteractiveElement (element \<lparr> el_attributes := AList.delete markerAttribute (el_attributes element) \<rparr>)
     = isInteractiveElement element"
  by (simp_all add: isElementVisible_def isTopElement_el_def isInViewport_el_def
      isInteractiveElement_def markerAttribute_def)

lemma map_of_attachLocator:
  "map_of (map (\<lambda>(nodeId, nodeData). (nodeId, attachLocator nodeData)) m) k
     = map_option attachLocator (map_of m k)"
  by (induction m) auto

lemma outside_viewport_not_topmost:
  assumes "0 \<le> vx" and "boxed element" and "\<not> isInViewport_el pg element vx"
  shows "\<not> isTopElement_el pg element vx"
proof -
  let ?r = "boundingClientRect element"
  have w: "0 \<le> rect_width ?r" and h: "0 \<le> rect_height ?r"
    using assms(2) by (simp_all add: boxed_def)
  have v: "(0::rat) \<le> of_int vx" using assms(1) by simp
  have sw: "(of_int (innerWidth pg - int (scrollbarWidth pg)) :: rat) \<le> of_int (innerWidth pg)"
    and sh: "(of_int (innerHeight pg - int (scrollbarHeight pg)) :: rat) \<le> of_int (innerHeight pg)"
    by simp_all
  from assms(1,3) have out:
    "rect_bottom ?r < - of_int vx \<or> rect_top ?r > of_int (innerHeight pg) + of_int vx
     \<or> rect_right ?r < - of_int vx \<or> rect_left ?r > of_int (innerWidth pg) + of_int vx"
    by (auto simp add: isInViewport_el_def Let_def)
  have "elementFromPoint_null pg (rect_left ?r + rect_width ?r / 2) (rect_top ?r + rect_height ?r / 2)"
    unfolding elementFromPoint_null_def
    using out w h v sw sh
    by (auto simp add: rect_left_def rect_right_def rect_top_def rect_bottom_def min_def max_def)
  then show ?thesis
    using assms(1) by (auto simp add: isTopElement_el_def Let_def)
qed

lemma describeElement_not_topmost:
  assumes "\<not> isTopElement_el pg element vx"
    and "describeElement pg vx element h = (nodeData, element', h')"
  shows "h' = h \<and> element' = element
         \<and> highlightIndex nodeData = None \<and> attributes nodeData = []
         \<and> locator nodeData = None \<and> isInteractive nodeData = None
         \<and> tagName nodeData = toLowerCase (el_tagName element)
         \<and> (isElementVisible element \<longrightarrow>
               isVisible nodeData = Some True \<and> isTopElement nodeData = Some False
               \<and> isInViewport nodeData = Some (isInViewport_el pg element vx))"
  using assms
  by (auto simp add: describeElement_def Let_def split: option.splits if_splits)

lemma describeElement_interactive_indexed:
  assumes "0 \<le> vx" and "boxed element"
    and "describeElement pg vx element h = (nodeData, element', h')"
    and "isInteractive nodeData = Some True"
  shows "highlightIndex nodeData \<noteq> None"
proof (cases "isInViewport_el pg element vx")
  case True
  with assms(3,4) show ?thesis
    by (auto simp add: describeElement_def Let_def split: option.splits if_splits)
next
  case False
  from outside_viewport_not_topmost [OF assms(1,2) False]
    describeElement_not_topmost [OF _ assms(3)] assms(4)
  show ?thesis by simp
qed

lemma list_all_update:
  "P (k, v) \<Longrightarrow> list_all P al \<Longrightarrow> list_all P (AList.update k v al)"
  by (induction al) auto

lemma walk_interactive_indexed:
  "buildDomTree pg vx node s = (r, node', s') \<Longrightarrow> 0 \<le> vx \<Longrightarrow>
   list_all boxed (elementsOf node) \<Longrightarrow>
   list_all (\<lambda>entry. \<not> interactiveUnindexed (snd entry)) (DOM_HASH_MAP s) \<Longrightarrow>
   list_all (\<lambda>entry. \<not> interactiveUnindexed (snd entry)) (DOM_HASH_MAP s')"
  "processChildNodes pg vx nodes s = (ids, nodes', s') \<Longrightarrow> 0 \<le> vx \<Longrightarrow>
   list_all boxed (concat (map elementsOf nodes)) \<Longrightarrow>
   list_all (\<lambda>entry. \<not> interactiveUnindexed (snd entry)) (DOM_HASH_MAP s) \<Longrightarrow>
   list_all (\<lambda>entry. \<not> interactiveUnindexed (snd entry)) (DOM_HASH_MAP s')"
proof (induction pg vx node s and pg vx nodes s
       arbitrary: r node' s' and ids nodes' s' rule: buildDomTree_processChildNodes.induct)
  case (1 pg vx t s)
  then show ?case by simp
next
  case (2 pg vx s)
  then show ?case by simp
next
  case (3 pg vx element kids s)
  show ?case
  proof (cases "toLowerCase (el_tagName element) \<in> set skipTags")
    case True
    with "3.prems" show ?thesis by simp
  next
    case False
    obtain nd e' hi where d: "describeElement pg vx element (highlightCounter s) = (nd, e', hi)"
      by (cases "describeElement pg vx element (highlightCounter s)") auto
    obtain cids kids' s2 where
      c: "processChildNodes pg vx kids (s \<lparr> highlightCounter := hi \<rparr>) = (cids, kids', s2)"
      by (cases "processChildNodes pg vx kids (s \<lparr> highlightCounter := hi \<rparr>)") auto
    have s': "s' = s2 \<lparr> ID_current := ID_current s2 + 1,
                         DOM_HASH_MAP := AList.update (showNat (ID_current s2))
                            (ElementDomNode (nd \<lparr> children := cids \<rparr>)) (DOM_HASH_MAP s2) \<rparr>"
      using "3.prems"(1) False d c by (simp add: Let_def)
    have bx: "boxed element" and bk: "list_all boxed (concat (map elementsOf kids))"
      using "3.prems"(3) by simp_all
    have i1: "list_all (\<lambda>entry. \<not> interactiveUnindexed (snd entry))
                (DOM_HASH_MAP (s \<lparr> highlightCounter := hi \<rparr>))"
      using "3.prems"(4) by simp
    have k: "list_all (\<lambda>entry. \<not> interactiveUnindexed (snd entry)) (DOM_HASH_MAP s2)"
      by (rule "3.IH" [OF False d [symmetric] refl c "3.prems"(2) bk i1])
    have n: "\<not> interactiveUnindexed (ElementDomNode (nd \<lparr> children := cids \<rparr>))"
      using describeElement_interactive_indexed [OF "3.prems"(2) bx d] by auto
    show ?thesis
      unfolding s' using k n by (simp add: list_all_update)
  qed
next
  case (4 pg vx s)
  then show ?case by simp
next
  case (5 pg vx t rest s)
  show ?case
  proof (cases "trim t \<noteq> []")
    case True
    let ?s1 = "s \<lparr> ID_current := ID_current s + 1,
                    DOM_HASH_MAP := AList.update (showNat (ID_current s))
                                      (TextDomNode (trim t) True) (DOM_HASH_MAP s) \<rparr>"
    obtain ids2 rest' s2 where c: "processChildNodes pg vx rest ?s1 = (ids2, rest', s2)"
      by (cases "processChildNodes pg vx rest ?s1") auto
    have s': "s' = s2" using "5.prems"(1) True c by (simp add: Let_def)
    have i1: "list_all (\<lambda>entry. \<not> interactiveUnindexed (snd entry)) (DOM_HASH_MAP ?s1)"
      using "5.prems"(4) by (simp add: list_all_update)
    have br: "list_all boxed (concat (map elementsOf rest))"
      using "5.prems"(3) by simp
    show ?thesis
      unfolding s' by (rule "5.IH"(1) [OF refl True refl refl c "5.prems"(2) br i1])
  next
    case False
    obtain ids2 rest' s2 where c: "processChildNodes pg vx rest s = (ids2, rest', s2)"
      by (cases "processChildNodes pg vx rest s") auto
    have s': "s' = s2" using "5.prems"(1) False c by (simp add: Let_def)
    have br: "list_all boxed (concat (map elementsOf rest))"
      using "5.prems"(3) by simp
    show ?thesis unfolding s' by (rule "5.IH"(2) [OF refl False c "5.prems"(2) br "5.prems"(4)])
  qed
next
  case (6 pg vx rest s)
  obtain ids2 rest' s2 where c: "processChildNodes pg vx rest s = (ids2, rest', s2)"
    by (cases "processChildNodes pg vx rest s") auto
  have s': "s' = s2" using "6.prems"(1) c by simp
  have br: "list_all boxed (concat (map elementsOf rest))"
    using "6.prems"(3) by simp
  show ?case unfolding s' by (rule "6.IH" [OF c "6.prems"(2) br "6.prems"(4)])
next
  case (7 pg vx element kids rest s)
  obtain cid child' s1 where b: "buildDomTree pg vx (ElementNode element kids) s = (cid, child', s1)"
    by (cases "buildDomTree pg vx (ElementNode element kids) s") auto
  obtain ids2 rest' s2 where c: "processChildNodes pg vx rest s1 = (ids2, rest', s2)"
    by (cases "processChildNodes pg vx rest s1") auto
  have s': "s' = s2" using "7.prems"(1) b c by simp
  have be: "list_all boxed (elementsOf (ElementNode element kids))"
    and br: "list_all boxed (concat (map elementsOf rest))"
    using "7.prems"(3) by simp_all
  have a: "list_all (\<lambda>entry. \<not> interactiveUnindexed (snd entry)) (DOM_HASH_MAP s1)"
    by (rule "7.IH"(1) [OF b "7.prems"(2) be "7.prems"(4)])
  show ?case unfolding s' by (rule "7.IH"(2) [OF b [symmetric] refl c "7.prems"(2) br a])
qed

lemma boxed_clearMarks:
  "list_all boxed (elementsOf node) \<Longrightarrow> list_all boxed (elementsOf (clearMarks node))"
proof (induction node)
  case (ElementNode element kids)
  then show ?case by (auto simp add: list_all_iff boxed_def)
qed simp_all

lemma nodeAt_elementsOf:
  "nodeAt node path = Some (ElementNode element kids) \<Longrightarrow> element \<in> set (elementsOf node)"
proof (induction path arbitrary: node)
  case Nil
  then show ?case by simp
next
  case (Cons i path)
  from Cons.prems obtain e0 kids0 where node: "node = ElementNode e0 kids0"
    by (cases node) auto
  with Cons.prems have i: "i < length kids0"
    and at: "nodeAt (kids0 ! i) path = Some (ElementNode element kids)"
    by (auto split: if_splits)
  from Cons.IH [OF at] have "element \<in> set (elementsOf (kids0 ! i))" .
  with i show ?case unfolding node by (auto intro!: bexI [of _ "kids0 ! i"])
qed

lemma selectorMap_fold_other:
  "i \<notin> set (indicesOf m) \<Longrightarrow>
   map_of (fold (\<lambda>(key, node) selectorMap.
             (case node of
                TextDomNode t v \<Rightarrow> selectorMap
              | ElementDomNode d \<Rightarrow>
                  (case highlightIndex d of
                     None \<Rightarrow> selectorMap
                   | Some i \<Rightarrow> if isInteractive d = Some True
                               then AList.update i d selectorMap else selectorMap))) m acc) i
     = map_of acc i"
proof (induction m arbitrary: acc)
  case Nil
  then show ?case by simp
next
  case (Cons entry m)
  obtain k n where e: "entry = (k, n)" by (cases entry)
  show ?case
  proof (cases n)
    case (TextDomNode t v)
    with Cons e show ?thesis by simp
  next
    case (ElementDomNode d)
    with Cons e show ?thesis
      by (cases "highlightIndex d") (auto simp add: update_conv')
  qed
qed

lemma selectorMap_fold_holds:
  "distinct (indicesOf m) \<Longrightarrow> (k, ElementDomNode d) \<in> set m \<Longrightarrow> highlightIndex d = Some i \<Longrightarrow>
   isInteractive d = Some True \<Longrightarrow>
   map_of (fold (\<lambda>(key, node) selectorMap.
             (case node of
                TextDomNode t v \<Rightarrow> selectorMap
              | ElementDomNode d \<Rightarrow>
                  (case highlightIndex d of
                     None \<Rightarrow> selectorMap
                   | Some i \<Rightarrow> if isInteractive d = Some True
                               then AList.update i d selectorMap else selectorMap))) m acc) i
     = Some d"
proof (induction m arbitrary: acc)
  case Nil
  then show ?case by simp
next
  case (Cons entry m)
  obtain k0 n0 where e: "entry = (k0, n0)" by (cases entry)
  show ?case
  proof (cases "(k, ElementDomNode d) \<in> set m")
    case True
    have dm: "distinct (indicesOf m)"
      using Cons.prems(1) e by (cases n0) (auto split: option.splits)
    show ?thesis
      unfolding fold_simps by (rule Cons.IH [OF dm True Cons.prems(3,4)])
  next
    case False
    with Cons.prems(2) e have n0: "k0 = k" "n0 = ElementDomNode d" by auto
    have ni: "i \<notin> set (indicesOf m)"
      using Cons.prems(1,3) e n0 by simp
    show ?thesis
      unfolding fold_simps e n0
      using Cons.prems(3,4) by (simp add: selectorMap_fold_other [OF ni] update_conv')
  qed
qed

lemma walk_distinct:
  assumes "buildDomTree pg vx node \<lparr> ID_current = 0, DOM_HASH_MAP = [], highlightCounter = 0 \<rparr>
             = (r, node', s)"
  shows "distinct (indicesOf (DOM_HASH_MAP s))"
proof -
  from walk_grows(1) [OF assms wf_walk_start]
  have "mset (indicesOf (DOM_HASH_MAP s)) = mset [0..<highlightCounter s]"
    by (auto simp add: walked_from_def)
  then have "distinct (indicesOf (DOM_HASH_MAP s)) = distinct [0..<highlightCounter s]"
    by (rule mset_eq_imp_distinct_iff)
  then show ?thesis by simp
qed

lemma attachLocator_element:
  assumes "attachLocator n = ElementDomNode d"
  shows "\<exists>d0. n = ElementDomNode d0
           \<and> isInteractive d = isInteractive d0 \<and> highlightIndex d = highlightIndex d0
           \<and> (\<forall>i. highlightIndex d0 = Some i \<and> isInteractive d0 = Some True \<longrightarrow>
                  locator d = Some (Locator (markerSelector i)))"
  using assms
  by (cases n) (auto simp add: attachLocator_def split: option.splits if_splits)


text \<open>
  C9, as amended. In an extraction pass with \<open>viewportExpansion = vx \<ge> 0\<close>, on a page
  whose bounding rectangles have no negative width or height, take an element the walk
  reaches (neither it nor an ancestor has a skipped tag) that lies outside the
  expanded viewport. The centre of its rectangle lies outside the viewport, where
  \<^verbatim>\<open>document.elementFromPoint\<close> returns \<^verbatim>\<open>null\<close>, so \<^verbatim>\<open>isTopElement\<close> is false for it. The
  snapshot holds the node the walk makes of it, without \<open>isInteractive\<close>, \<open>highlightIndex\<close>,
  attributes and locator (with \<open>isTopElement = false\<close> and \<open>isInViewport = false\<close> when
  the element is visible), the element on the page bears no marker attribute, and
  \<^verbatim>\<open>getSelectorMap\<close>, which admits a node only under the number that is its
  \<open>highlightIndex\<close>, holds the node under no index. Every node of the snapshot with
  \<open>isInteractive = true\<close> carries a \<open>highlightIndex\<close> and the locator of that index, and
  \<^verbatim>\<open>getSelectorMap\<close> holds it under that index: no node is interactive and unindexed.
\<close>

theorem outside_viewport_not_interactive:
  assumes "getFlatTree pg cfg = (tree, pg')"
    and "viewportExpansion cfg = Some vx"
    and "0 \<le> vx"
    and "list_all boxed (elementsOf (body pg))"
    and "visits (body pg) path"
    and "nodeAt (body pg) path = Some (ElementNode element kids)"
    and "\<not> isInViewport_el pg element vx"
  shows "\<not> isTopElement_el pg element vx
         \<and> (\<exists>k d e' kids'.
               map_of (nodeMap tree) k = Some (ElementDomNode d)
               \<and> (\<exists>h cids.
                     d = (fst (describeElement pg vx
                                 (element \<lparr> el_attributes :=
                                    AList.delete markerAttribute (el_attributes element) \<rparr>) h))
                           \<lparr> children := cids \<rparr>)
               \<and> tagName d = toLowerCase (el_tagName element)
               \<and> isInteractive d = None \<and> highlightIndex d = None
               \<and> attributes d = [] \<and> locator d = None
               \<and> (isElementVisible element \<longrightarrow>
                     isVisible d = Some True \<and> isTopElement d = Some False
                     \<and> isInViewport d = Some False)
               \<and> nodeAt (body pg') path = Some (ElementNode e' kids')
               \<and> map_of (el_attributes e') markerAttribute = None
               \<and> (\<forall>i. map_of (getSelectorMap tree) i \<noteq> Some d))
         \<and> (\<forall>i d. map_of (getSelectorMap tree) i = Some d \<longrightarrow> highlightIndex d = Some i)
         \<and> (\<forall>k d. map_of (nodeMap tree) k = Some (ElementDomNode d) \<and> isInteractive d = Some True \<longrightarrow>
               (\<exists>i. highlightIndex d = Some i \<and> locator d = Some (Locator (markerSelector i))
                    \<and> map_of (getSelectorMap tree) i = Some d))"
proof -
  let ?s0 = "\<lparr> ID_current = 0, DOM_HASH_MAP = [], highlightCounter = 0 \<rparr>"
  let ?ec = "element \<lparr> el_attributes := AList.delete markerAttribute (el_attributes element) \<rparr>"
  from assms(1) obtain root body' s where
    b0: "buildDomTree pg (case viewportExpansion cfg of None \<Rightarrow> VIEWPORT_EXPANSION | Some v \<Rightarrow> v)
           (clearMarks (body pg)) ?s0 = (root, body', s)"
    and m: "nodeMap tree = map (\<lambda>(nodeId, nodeData). (nodeId, attachLocator nodeData)) (DOM_HASH_MAP s)"
    and p: "pg' = pg \<lparr> body := body' \<rparr>"
    by (rule getFlatTree_walk)
  from b0 assms(2) have b: "buildDomTree pg vx (clearMarks (body pg)) ?s0 = (root, body', s)"
    by simp
  have be: "boxed element"
    using nodeAt_elementsOf [OF assms(6)] assms(4) by (simp add: list_all_iff)
  have nt: "\<not> isTopElement_el pg element vx"
    by (rule outside_viewport_not_topmost [OF assms(3) be assms(7)])
  have v: "visits (clearMarks (body pg)) path"
    using assms(5) by (simp add: visits_clearMarks)
  have at: "nodeAt (clearMarks (body pg)) path = Some (ElementNode ?ec (map clearMarks kids))"
    using assms(6) by (simp add: nodeAt_clearMarks)
  from walk_describes [OF b wf_walk_start v at] obtain k h nd e' hi cids kids' where
    de: "describeElement pg vx ?ec h = (nd, e', hi)"
    and lk: "map_of (DOM_HASH_MAP s) k = Some (ElementDomNode (nd \<lparr> children := cids \<rparr>))"
    and na: "nodeAt body' path = Some (ElementNode e' kids')"
    by blast
  have ntc: "\<not> isTopElement_el pg ?ec vx"
    using nt by (simp add: cleaned_element_facts)
  from describeElement_not_topmost [OF ntc de] assms(7)
  have e': "e' = ?ec" and hn: "highlightIndex nd = None" and an: "attributes nd = []"
    and ln: "locator nd = None" and tn: "tagName nd = toLowerCase (el_tagName element)"
    and it: "isInteractive nd = None"
    and vs: "isElementVisible element \<longrightarrow>
               isVisible nd = Some True \<and> isTopElement nd = Some False \<and> isInViewport nd = Some False"
    by (simp_all add: cleaned_element_facts)
  let ?d = "nd \<lparr> children := cids \<rparr>"
  have "?d = (fst (describeElement pg vx ?ec h)) \<lparr> children := cids \<rparr>"
    using de by simp
  then have tie: "\<exists>h cids. ?d = (fst (describeElement pg vx ?ec h)) \<lparr> children := cids \<rparr>"
    by blast
  have "map_of (nodeMap tree) k = Some (attachLocator (ElementDomNode ?d))"
    unfolding m map_of_attachLocator using lk by simp
  then have l: "map_of (nodeMap tree) k = Some (ElementDomNode ?d)"
    using hn by (simp add: attachLocator_def)
  have mk: "map_of (el_attributes e') markerAttribute = None"
    unfolding e' by (simp add: delete_conv')
  have adm: "\<forall>i d. map_of (getSelectorMap tree) i = Some d \<longrightarrow> highlightIndex d = Some i"
    using selectorMap_admits_indexed by blast
  have no: "\<forall>i. map_of (getSelectorMap tree) i \<noteq> Some ?d"
  proof
    fix i show "map_of (getSelectorMap tree) i \<noteq> Some ?d"
      using selectorMap_admits_indexed [of tree i ?d] hn by auto
  qed
  have one: "\<exists>k d e' kids'.
               map_of (nodeMap tree) k = Some (ElementDomNode d)
               \<and> (\<exists>h cids.
                     d = (fst (describeElement pg vx
                                 (element \<lparr> el_attributes :=
                                    AList.delete markerAttribute (el_attributes element) \<rparr>) h))
                           \<lparr> children := cids \<rparr>)
               \<and> tagName d = toLowerCase (el_tagName element)
               \<and> isInteractive d = None \<and> highlightIndex d = None
               \<and> attributes d = [] \<and> locator d = None
               \<and> (isElementVisible element \<longrightarrow>
                     isVisible d = Some True \<and> isTopElement d = Some False
                     \<and> isInViewport d = Some False)
               \<and> nodeAt (body pg') path = Some (ElementNode e' kids')
               \<and> map_of (el_attributes e') markerAttribute = None
               \<and> (\<forall>i. map_of (getSelectorMap tree) i \<noteq> Some d)"
  proof -
    have "map_of (nodeMap tree) k = Some (ElementDomNode ?d)
               \<and> (\<exists>h cids. ?d = (fst (describeElement pg vx ?ec h)) \<lparr> children := cids \<rparr>)
               \<and> tagName ?d = toLowerCase (el_tagName element)
               \<and> isInteractive ?d = None \<and> highlightIndex ?d = None
               \<and> attributes ?d = [] \<and> locator ?d = None
               \<and> (isElementVisible element \<longrightarrow>
                     isVisible ?d = Some True \<and> isTopElement ?d = Some False
                     \<and> isInViewport ?d = Some False)
               \<and> nodeAt (body pg') path = Some (ElementNode e' kids')
               \<and> map_of (el_attributes e') markerAttribute = None
               \<and> (\<forall>i. map_of (getSelectorMap tree) i \<noteq> Some ?d)"
      using l tie tn it hn an ln vs na mk no p by simp
    then show ?thesis by blast
  qed
  have inv: "list_all (\<lambda>entry. \<not> interactiveUnindexed (snd entry)) (DOM_HASH_MAP s)"
    by (rule walk_interactive_indexed(1) [OF b assms(3) boxed_clearMarks [OF assms(4)]]) simp
  have dis: "distinct (indicesOf (nodeMap tree))"
    unfolding m indicesOf_attachLocator by (rule walk_distinct [OF b])
  have all: "\<forall>k d. map_of (nodeMap tree) k = Some (ElementDomNode d) \<and> isInteractive d = Some True \<longrightarrow>
               (\<exists>i. highlightIndex d = Some i \<and> locator d = Some (Locator (markerSelector i))
                    \<and> map_of (getSelectorMap tree) i = Some d)"
  proof (intro allI impI)
    fix k d
    assume a: "map_of (nodeMap tree) k = Some (ElementDomNode d) \<and> isInteractive d = Some True"
    then have "map_option attachLocator (map_of (DOM_HASH_MAP s) k) = Some (ElementDomNode d)"
      unfolding m map_of_attachLocator by simp
    then obtain n where n: "map_of (DOM_HASH_MAP s) k = Some n"
      and an: "attachLocator n = ElementDomNode d"
      by auto
    from attachLocator_element [OF an] obtain d0 where n0: "n = ElementDomNode d0"
      and ii: "isInteractive d = isInteractive d0" and hh: "highlightIndex d = highlightIndex d0"
      and ll: "\<And>i. highlightIndex d0 = Some i \<Longrightarrow> isInteractive d0 = Some True \<Longrightarrow>
                 locator d = Some (Locator (markerSelector i))"
      by blast
    have "(k, n) \<in> set (DOM_HASH_MAP s)" using n by (rule map_of_SomeD)
    with inv have "\<not> interactiveUnindexed n" by (auto simp add: list_all_iff)
    with n0 ii a obtain i where i: "highlightIndex d0 = Some i" by auto
    have l: "locator d = Some (Locator (markerSelector i))"
      using ll [OF i] ii a by simp
    have mem: "(k, ElementDomNode d) \<in> set (nodeMap tree)"
      using a by (auto dest: map_of_SomeD)
    have hi: "highlightIndex d = Some i" using hh i by simp
    have "map_of (getSelectorMap tree) i = Some d"
      unfolding getSelectorMap_def
      using a by (intro selectorMap_fold_holds [OF dis mem hi]) simp
    with hi l show "\<exists>i. highlightIndex d = Some i \<and> locator d = Some (Locator (markerSelector i))
                    \<and> map_of (getSelectorMap tree) i = Some d"
      by blast
  qed
  show ?thesis using nt one adm all by blast
qed


lemma longPage_far:
  "visits (body longPage) [1]
   \<and> nodeAt (body longPage) [1] = Some (ElementNode farButton [TextNode ''far away''])
   \<and> list_all boxed (elementsOf (body longPage))
   \<and> \<not> isInViewport_el longPage farButton 0
   \<and> isElementVisible farButton"
  by code_simp

lemma longPage_snapshot:
  "map_of (nodeMap (fst (getFlatTree longPage viewportOnly))) ''3''
     = Some (ElementDomNode
         \<lparr> tagName = ''button'', attributes = [], children = [''2''], isVisible = Some True,
           isTopElement = Some False, isInViewport = Some False, isNew = None,
           isInteractive = None, highlightIndex = None, extra = None, locator = None \<rparr>)
   \<and> map fst (getSelectorMap (fst (getFlatTree longPage viewportOnly))) = [0]
   \<and> markersOf (body (snd (getFlatTree longPage viewportOnly))) = [''0'']
   \<and> filter (\<lambda>entry. interactiveUnindexed (snd entry))
        (nodeMap (fst (getFlatTree longPage viewportOnly))) = []"
  by code_simp


lemma longPage_link:
  "map_of (nodeMap (fst (getFlatTree longPage viewportOnly))) ''1''
     = Some (ElementDomNode
         \<lparr> tagName = ''a'', attributes = [(''href'', ''/top'')], children = [''0''],
           isVisible = Some True, isTopElement = Some True, isInViewport = Some True,
           isNew = None, isInteractive = Some True, highlightIndex = Some 0, extra = None,
           locator = Some (Locator (markerSelector 0)) \<rparr>)"
  by code_simp


text \<open>
  On the long page with \<open>viewportExpansion = 0\<close>: the button at 2000 pixels from the
  top, in a viewport of 720 pixels, is the element outside the viewport; the link at
  the top is the interactive node, under index 0.
\<close>

theorem outside_viewport_witness:
  "\<not> isTopElement_el longPage farButton 0
   \<and> (\<exists>k d e' kids'.
         map_of (nodeMap (fst (getFlatTree longPage viewportOnly))) k = Some (ElementDomNode d)
         \<and> tagName d = ''button''
         \<and> isInteractive d = None \<and> highlightIndex d = None
         \<and> attributes d = [] \<and> locator d = None
         \<and> isVisible d = Some True \<and> isTopElement d = Some False \<and> isInViewport d = Some False
         \<and> nodeAt (body (snd (getFlatTree longPage viewportOnly))) [1] = Some (ElementNode e' kids')
         \<and> map_of (el_attributes e') markerAttribute = None
         \<and> (\<forall>i. map_of (getSelectorMap (fst (getFlatTree longPage viewportOnly))) i \<noteq> Some d))
   \<and> (\<exists>d. map_of (nodeMap (fst (getFlatTree longPage viewportOnly))) ''1'' = Some (ElementDomNode d)
          \<and> tagName d = ''a'' \<and> isInteractive d = Some True \<and> highlightIndex d = Some 0
          \<and> locator d = Some (Locator (markerSelector 0))
          \<and> map_of (getSelectorMap (fst (getFlatTree longPage viewportOnly))) 0 = Some d)
   \<and> map fst (getSelectorMap (fst (getFlatTree longPage viewportOnly))) = [0]
   \<and> markersOf (body (snd (getFlatTree longPage viewportOnly))) = [''0'']"
proof -
  let ?tree = "fst (getFlatTree longPage viewportOnly)"
  let ?a = "\<lparr> tagName = ''a'', attributes = [(''href'', ''/top'')], children = [''0''],
              isVisible = Some True, isTopElement = Some True, isInViewport = Some True,
              isNew = None, isInteractive = Some True, highlightIndex = Some (0::nat), extra = None,
              locator = Some (Locator (markerSelector 0)) \<rparr>"
  have g: "getFlatTree longPage viewportOnly
             = (fst (getFlatTree longPage viewportOnly), snd (getFlatTree longPage viewportOnly))"
    by simp
  have c: "viewportExpansion viewportOnly = Some 0" by (simp add: viewportOnly_def)
  have t: "toLowerCase (el_tagName farButton) = ''button''"
    by code_simp
  from longPage_far have f:
    "list_all boxed (elementsOf (body longPage))"
    "visits (body longPage) [1]"
    "nodeAt (body longPage) [1] = Some (ElementNode farButton [TextNode ''far away''])"
    "\<not> isInViewport_el longPage farButton 0"
    and vis: "isElementVisible farButton"
    by blast+
  note main = outside_viewport_not_interactive [OF g c _ f]
  from main have top: "\<not> isTopElement_el longPage farButton 0" by simp
  from main vis have one:
    "\<exists>k d e' kids'.
         map_of (nodeMap ?tree) k = Some (ElementDomNode d)
         \<and> tagName d = ''button''
         \<and> isInteractive d = None \<and> highlightIndex d = None
         \<and> attributes d = [] \<and> locator d = None
         \<and> isVisible d = Some True \<and> isTopElement d = Some False \<and> isInViewport d = Some False
         \<and> nodeAt (body (snd (getFlatTree longPage viewportOnly))) [1] = Some (ElementNode e' kids')
         \<and> map_of (el_attributes e') markerAttribute = None
         \<and> (\<forall>i. map_of (getSelectorMap ?tree) i \<noteq> Some d)"
    unfolding t by blast
  from main have all:
    "\<forall>k d. map_of (nodeMap ?tree) k = Some (ElementDomNode d) \<and> isInteractive d = Some True \<longrightarrow>
               (\<exists>i. highlightIndex d = Some i \<and> locator d = Some (Locator (markerSelector i))
                    \<and> map_of (getSelectorMap ?tree) i = Some d)"
    by blast
  from all [rule_format, of "''1''" ?a] longPage_link have "\<exists>i. highlightIndex ?a = Some i
      \<and> locator ?a = Some (Locator (markerSelector i)) \<and> map_of (getSelectorMap ?tree) i = Some ?a"
    by simp
  then have "map_of (getSelectorMap ?tree) 0 = Some ?a" by simp
  with longPage_link have two:
    "\<exists>d. map_of (nodeMap ?tree) ''1'' = Some (ElementDomNode d)
          \<and> tagName d = ''a'' \<and> isInteractive d = Some True \<and> highlightIndex d = Some 0
          \<and> locator d = Some (Locator (markerSelector 0))
          \<and> map_of (getSelectorMap ?tree) 0 = Some d"
    by simp
  show ?thesis
    using top one two longPage_snapshot by simp
qed

text \<open>
  The claim C9 as stated fails on the long page with \<open>viewportExpansion = 0\<close>: its button
  is visible and interactive, no element covers its centre, and it lies outside the
  expanded viewport, yet the code does not take it for topmost and its node in the
  snapshot is not marked interactive. The snapshot has no node that is interactive and
  unindexed.
\<close>

theorem far_button_recorded_not_interactive:
  "isElementVisible farButton \<and> isInteractiveElement farButton \<and> centreHit farButton
   \<and> \<not> isInViewport_el longPage farButton 0
   \<and> \<not> isTopElement_el longPage farButton 0
   \<and> map_of (nodeMap (fst (getFlatTree longPage viewportOnly))) ''3''
       = Some (ElementDomNode
           \<lparr> tagName = ''button'', attributes = [], children = [''2''], isVisible = Some True,
             isTopElement = Some False, isInViewport = Some False, isNew = None,
             isInteractive = None, highlightIndex = None, extra = None, locator = None \<rparr>)
   \<and> filter (\<lambda>entry. interactiveUnindexed (snd entry))
        (nodeMap (fst (getFlatTree longPage viewportOnly))) = []"
  by code_simp

end
